theory Spec2Isabelle
  imports Main "HOL-Library.Sublist" "HOL-Library.Log_Nat"
begin

text \<open>
  A model of \<^verbatim>\<open>collector/collector.py\<close> and the catalog of \<^verbatim>\<open>collector/config.py\<close>:
  the normalizer \<open>parse_sensors\<close>, the timestamp conversion \<open>_iso_to_ns\<close>, the writer
  \<open>write_to_influxdb\<close>, the cycle \<open>poll_once\<close>, the wait \<open>_backoff_sleep\<close> and the
  loop \<open>run\<close>. Exceptions are values (\<open>Inl\<close>), the three module globals are a record
  passed through the cycle, and the calls made on the store client are returned as a
  list.
\<close>

section \<open>Python values\<close>

text \<open>
  A float is its exact value: a finite double as the rational it denotes, the negative
  zero, the two infinities and NaN. The document returned by \<open>resp.json()\<close> is any JSON
  value; an object is the list of its items, keys distinct, in the order of the \<open>dict\<close>.
\<close>

datatype pyfloat = Fin rat | NegZero | PosInf | NegInf | NaN

datatype json =
    JNull
  | JBool bool
  | JInt int
  | JFloat pyfloat
  | JStr string
  | JArr "json list"
  | JObj "(string \<times> json) list"

text \<open>
  The exceptions that the modelled code can raise or let through.
  \<open>RequestException\<close> stands for \<open>requests.RequestException\<close> and its subclasses,
  \<open>OtherException\<close> for anything else raised by a collaborator (the store client).
\<close>

datatype exn =
    RequestException
  | AttributeError
  | TypeError
  | ValueError
  | OverflowError
  | OtherException string

text \<open>Truth value of an object, as \<open>if x\<close>, \<open>x and y\<close> and \<open>x or y\<close> test it.\<close>

fun float_truthy :: "pyfloat \<Rightarrow> bool" where
  "float_truthy (Fin q) = (q \<noteq> 0)"
| "float_truthy NegZero = False"
| "float_truthy PosInf = True"
| "float_truthy NegInf = True"
| "float_truthy NaN = True"

fun truthy :: "json \<Rightarrow> bool" where
  "truthy JNull = False"
| "truthy (JBool b) = b"
| "truthy (JInt i) = (i \<noteq> 0)"
| "truthy (JFloat f) = float_truthy f"
| "truthy (JStr s) = (s \<noteq> [])"
| "truthy (JArr xs) = (xs \<noteq> [])"
| "truthy (JObj kvs) = (kvs \<noteq> [])"

text \<open>
  \<open>a == b\<close>. Booleans, integers and floats compare by numeric value across the three
  types, and NaN equals nothing, itself included; strings, lists and dicts compare with
  their own kind only, lists element by element and dicts key by key. Inside a list or a
  dict, two elements are compared by identity first and by \<open>==\<close> only when they are not
  the same object. The JSON decoder yields one and the same float object
  (\<open>json.decoder.NaN\<close>) for every \<open>NaN\<close> it reads, so two NaN elements are always
  identical; for every other pair of identical objects \<open>==\<close> holds as well.
\<close>

datatype number = Rat rat | PlusInfinity | MinusInfinity | NotANumber

fun float_number :: "pyfloat \<Rightarrow> number" where
  "float_number (Fin q) = Rat q"
| "float_number NegZero = Rat 0"
| "float_number PosInf = PlusInfinity"
| "float_number NegInf = MinusInfinity"
| "float_number NaN = NotANumber"

fun as_number :: "json \<Rightarrow> number option" where
  "as_number (JBool b) = Some (Rat (if b then 1 else 0))"
| "as_number (JInt i) = Some (Rat (of_int i))"
| "as_number (JFloat f) = Some (float_number f)"
| "as_number _ = None"

function py_eq :: "json \<Rightarrow> json \<Rightarrow> bool" where
  "py_eq a b =
     (case (as_number a, as_number b) of
        (Some x, Some y) \<Rightarrow> x \<noteq> NotANumber \<and> x = y
      | (Some x, None) \<Rightarrow> False
      | (None, Some y) \<Rightarrow> False
      | (None, None) \<Rightarrow>
          (case (a, b) of
             (JNull, JNull) \<Rightarrow> True
           | (JStr s, JStr t) \<Rightarrow> s = t
           | (JArr xs, JArr ys) \<Rightarrow>
               list_all2 (\<lambda>x y. x = JFloat NaN \<and> y = JFloat NaN \<or> py_eq x y) xs ys
           | (JObj kvs, JObj kws) \<Rightarrow>
               length kvs = length kws \<and>
               list_all
                 (\<lambda>(k, v). case map_of kws k of
                     None \<Rightarrow> False
                   | Some w \<Rightarrow> v = JFloat NaN \<and> w = JFloat NaN \<or> py_eq v w) kvs
           | _ \<Rightarrow> False))"
  by pat_completeness auto
termination
  apply (relation "measure (\<lambda>(a, b). size a)")
    apply simp
   apply (auto simp: less_Suc_eq_le)
   apply (erule size_list_estimation', simp)
  apply (erule size_list_estimation', simp)
  done

declare py_eq.simps [simp del]

section \<open>Double-precision arithmetic\<close>

text \<open>
  \<open>round_double\<close> rounds a rational to the nearest double, ties to even: the exponent
  \<open>e\<close> of the last mantissa bit is 52 below the binary exponent of the value and never
  below that of the subnormals, \<open>-1074\<close>; a result of \<open>2^1024\<close> or more overflows.
  \<open>float(i)\<close> of an integer raises \<open>OverflowError\<close> on overflow, a product of floats
  gives an infinity. \<open>int(x)\<close> truncates towards zero and raises on an infinity or NaN.
\<close>

definition pow2 :: "int \<Rightarrow> rat" where
  "pow2 e = (if 0 \<le> e then 2 ^ nat e else 1 / 2 ^ nat (- e))"

definition round_half_even :: "rat \<Rightarrow> int" where
  "round_half_even x =
     (let f = \<lfloor>x\<rfloor>; d = x - of_int f
      in if d < 1 / 2 then f else if 1 / 2 < d then f + 1 else if even f then f else f + 1)"

definition floor_log2 :: "rat \<Rightarrow> int" where
  "floor_log2 x =
     (let d = bitlen (fst (quotient_of x)) - bitlen (snd (quotient_of x))
      in if pow2 d \<le> x then d else d - 1)"

definition round_double :: "rat \<Rightarrow> pyfloat" where
  "round_double x =
     (if x = 0 then Fin 0
      else
        let a = \<bar>x\<bar>;
            e = max (floor_log2 a - 52) (- 1074);
            r = of_int (round_half_even (a / pow2 e)) * pow2 e
        in if pow2 1024 \<le> r then (if x < 0 then NegInf else PosInf)
           else if r = 0 then (if x < 0 then NegZero else Fin 0)
           else Fin (if x < 0 then - r else r))"

definition float_of_int :: "int \<Rightarrow> exn + pyfloat" where
  "float_of_int i =
     (case round_double (of_int i) of
        PosInf \<Rightarrow> Inl OverflowError
      | NegInf \<Rightarrow> Inl OverflowError
      | f \<Rightarrow> Inr f)"

fun float_negative :: "pyfloat \<Rightarrow> bool" where
  "float_negative (Fin q) = (q < 0)"
| "float_negative NegZero = True"
| "float_negative NegInf = True"
| "float_negative PosInf = False"
| "float_negative NaN = False"

definition float_mul :: "pyfloat \<Rightarrow> pyfloat \<Rightarrow> pyfloat" where
  "float_mul x y =
     (case (float_number x, float_number y) of
        (Rat p, Rat q) \<Rightarrow>
          if p * q = 0
          then (if float_negative x \<noteq> float_negative y then NegZero else Fin 0)
          else round_double (p * q)
      | (NotANumber, _) \<Rightarrow> NaN
      | (_, NotANumber) \<Rightarrow> NaN
      | (Rat p, _) \<Rightarrow>
          if p = 0 then NaN
          else if float_negative x \<noteq> float_negative y then NegInf else PosInf
      | (_, Rat q) \<Rightarrow>
          if q = 0 then NaN
          else if float_negative x \<noteq> float_negative y then NegInf else PosInf
      | (_, _) \<Rightarrow> if float_negative x \<noteq> float_negative y then NegInf else PosInf)"

definition py_trunc :: "rat \<Rightarrow> int" where
  "py_trunc q = (if 0 \<le> q then \<lfloor>q\<rfloor> else \<lceil>q\<rceil>)"

fun int_of_float :: "pyfloat \<Rightarrow> exn + int" where
  "int_of_float (Fin q) = Inr (py_trunc q)"
| "int_of_float NegZero = Inr 0"
| "int_of_float PosInf = Inl OverflowError"
| "int_of_float NegInf = Inl OverflowError"
| "int_of_float NaN = Inl ValueError"

section \<open>Dictionaries and iteration\<close>

text \<open>
  \<open>d.get(k, dflt)\<close>: only a dict has the method, any other object raises
  \<open>AttributeError\<close>. \<open>for s in v\<close>: a list yields its elements, a string its characters,
  a dict its keys; \<open>None\<close>, a boolean and a number raise \<open>TypeError\<close>.
\<close>

definition dict_get :: "json \<Rightarrow> string \<Rightarrow> json \<Rightarrow> exn + json" where
  "dict_get d k dflt =
     (case d of
        JObj kvs \<Rightarrow> Inr (case map_of kvs k of None \<Rightarrow> dflt | Some v \<Rightarrow> v)
      | _ \<Rightarrow> Inl AttributeError)"

definition py_iter :: "json \<Rightarrow> exn + json list" where
  "py_iter v =
     (case v of
        JArr xs \<Rightarrow> Inr xs
      | JStr s \<Rightarrow> Inr (map (\<lambda>c. JStr [c]) s)
      | JObj kvs \<Rightarrow> Inr (map (\<lambda>kv. JStr (fst kv)) kvs)
      | _ \<Rightarrow> Inl TypeError)"

section \<open>Configuration\<close>

text \<open>
  \<^verbatim>\<open>SENSOR_NAME_MAP: dict[int, str]\<close> of \<^verbatim>\<open>config.py\<close>, in the order of the source.
  \<open>SENSOR_NAME_MAP.get(sid)\<close> hashes \<open>sid\<close>: a list or dict raises \<open>TypeError\<close>; a
  boolean or an integral float finds the entry of the integer it equals; anything else
  finds nothing.
\<close>

definition SENSOR_NAME_MAP :: "(int \<times> string) list" where
  "SENSOR_NAME_MAP =
     [(55, ''temperature''), (56, ''humidity''), (53, ''noise_dba''), (14, ''light''),
      (58, ''pressure''),
      (214, ''uv_a''), (215, ''uv_b''), (216, ''uv_c''),
      (193, ''pm_1''), (194, ''pm_2_5''), (195, ''pm_4''), (196, ''pm_10''),
      (197, ''pn_0_5''), (198, ''pn_1''), (199, ''pn_2_5''), (200, ''pn_4''),
      (201, ''pn_10''), (202, ''typical_particle_size''),
      (10, ''battery''), (220, ''wifi_rssi''), (221, ''sd_card_present'')]"

fun int_key :: "json \<Rightarrow> exn + int option" where
  "int_key (JInt i) = Inr (Some i)"
| "int_key (JBool b) = Inr (Some (if b then 1 else 0))"
| "int_key (JFloat (Fin q)) = Inr (if q = of_int \<lfloor>q\<rfloor> then Some \<lfloor>q\<rfloor> else None)"
| "int_key (JFloat NegZero) = Inr (Some 0)"
| "int_key (JFloat _) = Inr None"
| "int_key JNull = Inr None"
| "int_key (JStr s) = Inr None"
| "int_key (JArr xs) = Inl TypeError"
| "int_key (JObj kvs) = Inl TypeError"

definition SENSOR_NAME_MAP_get :: "json \<Rightarrow> exn + string option" where
  "SENSOR_NAME_MAP_get sid =
     (case int_key sid of
        Inl e \<Rightarrow> Inl e
      | Inr None \<Rightarrow> Inr None
      | Inr (Some k) \<Rightarrow> Inr (map_of SENSOR_NAME_MAP k))"

text \<open>
  The environment of the process: the settings that \<^verbatim>\<open>config.py\<close> reads from
  environment variables, and three functions of the Python library that the collector
  calls: \<open>float(s)\<close> of a string (\<open>None\<close> for \<open>ValueError\<close>), the text of a float in an
  f-string, and \<open>datetime.fromisoformat(s).timestamp()\<close>.
\<close>

record env =
  SCK_DEVICE_ID :: string
  INFLUXDB_ORG :: string
  INFLUXDB_BUCKET :: string
  POLL_INTERVAL_SECONDS :: int
  float_of_str :: "string \<Rightarrow> pyfloat option"
  float_repr :: "pyfloat \<Rightarrow> string"
  fromisoformat_timestamp :: "string \<Rightarrow> exn + pyfloat"

section \<open>The normalizer\<close>

text \<open>
  \<open>float(value)\<close> by the kind of \<open>value\<close>.
\<close>

definition py_float :: "env \<Rightarrow> json \<Rightarrow> exn + pyfloat" where
  "py_float E v =
     (case v of
        JNull \<Rightarrow> Inl TypeError
      | JBool b \<Rightarrow> Inr (Fin (if b then 1 else 0))
      | JInt i \<Rightarrow> float_of_int i
      | JFloat f \<Rightarrow> Inr f
      | JStr s \<Rightarrow> (case float_of_str E s of None \<Rightarrow> Inl ValueError | Some f \<Rightarrow> Inr f)
      | JArr xs \<Rightarrow> Inl TypeError
      | JObj kvs \<Rightarrow> Inl TypeError)"

text \<open>
  The dict appended for a kept entry; \<open>value_of\<close> is its key \<open>"value"\<close>.
\<close>

record reading =
  sensor_id :: json
  sensor_name :: string
  value_of :: pyfloat
  timestamp :: json

text \<open>
  \<^verbatim>\<open>
  for s in sensors_raw:
      sid: int = s.get("id", -1)
      sensor_name = config.SENSOR_NAME_MAP.get(sid)
      if sensor_name is None:
          continue
      value = s.get("value")
      if value is None:
          continue
      timestamp_str = s.get("last_reading_at") or data.get("last_reading_at")
      if timestamp_str is None:
          continue
      readings.append({"sensor_id": sid, "sensor_name": sensor_name,
                       "value": float(value), "timestamp": timestamp_str})
  \<close>
  \<open>parse_entry\<close> is one pass through the body: \<open>Inr None\<close> for \<open>continue\<close>,
  \<open>Inr (Some r)\<close> for an appended reading, \<open>Inl e\<close> for an exception, which ends the loop
  and the function.
\<close>

definition parse_entry :: "env \<Rightarrow> json \<Rightarrow> json \<Rightarrow> exn + reading option" where
  "parse_entry E data s =
     (case dict_get s ''id'' (JInt (- 1)) of Inl e \<Rightarrow> Inl e | Inr sid \<Rightarrow>
      case SENSOR_NAME_MAP_get sid of Inl e \<Rightarrow> Inl e | Inr None \<Rightarrow> Inr None | Inr (Some name) \<Rightarrow>
      case dict_get s ''value'' JNull of Inl e \<Rightarrow> Inl e | Inr v \<Rightarrow>
      if v = JNull then Inr None else
      case dict_get s ''last_reading_at'' JNull of Inl e \<Rightarrow> Inl e | Inr own \<Rightarrow>
      case (if truthy own then Inr own else dict_get data ''last_reading_at'' JNull) of
        Inl e \<Rightarrow> Inl e | Inr timestamp_str \<Rightarrow>
      if timestamp_str = JNull then Inr None else
      case py_float E v of Inl e \<Rightarrow> Inl e | Inr f \<Rightarrow>
      Inr (Some \<lparr>sensor_id = sid, sensor_name = name, value_of = f, timestamp = timestamp_str\<rparr>))"

fun parse_loop :: "env \<Rightarrow> json \<Rightarrow> reading list \<Rightarrow> json list \<Rightarrow> exn + reading list" where
  "parse_loop E data readings [] = Inr readings"
| "parse_loop E data readings (s # ss) =
     (case parse_entry E data s of
        Inl e \<Rightarrow> Inl e
      | Inr None \<Rightarrow> parse_loop E data readings ss
      | Inr (Some r) \<Rightarrow> parse_loop E data (readings @ [r]) ss)"

text \<open>
  \<^verbatim>\<open>sensors_raw = data.get("data", {}).get("sensors", [])\<close>, then the loop.
\<close>

definition parse_sensors :: "env \<Rightarrow> json \<Rightarrow> exn + reading list" where
  "parse_sensors E data =
     (case dict_get data ''data'' (JObj []) of Inl e \<Rightarrow> Inl e | Inr d \<Rightarrow>
      case dict_get d ''sensors'' (JArr []) of Inl e \<Rightarrow> Inl e | Inr sensors_raw \<Rightarrow>
      case py_iter sensors_raw of Inl e \<Rightarrow> Inl e | Inr items \<Rightarrow>
      parse_loop E data [] items)"

section \<open>The writer\<close>

text \<open>
  \<^verbatim>\<open>
  def _iso_to_ns(iso_str):
      dt = datetime.fromisoformat(iso_str.replace("Z", "+00:00"))
      return int(dt.timestamp() * 1_000_000_000)
  \<close>
  \<open>str.replace\<close> replaces every occurrence; an argument that is not a string has no
  \<open>replace\<close> and raises \<open>AttributeError\<close>.
\<close>

fun replace_Z :: "string \<Rightarrow> string" where
  "replace_Z [] = []"
| "replace_Z (c # cs) = (if c = CHR ''Z'' then ''+00:00'' @ replace_Z cs else c # replace_Z cs)"

definition iso_to_ns :: "env \<Rightarrow> json \<Rightarrow> exn + int" where
  "iso_to_ns E iso_str =
     (case iso_str of
        JStr s \<Rightarrow>
          (case fromisoformat_timestamp E (replace_Z s) of
             Inl e \<Rightarrow> Inl e
           | Inr t \<Rightarrow> int_of_float (float_mul t (Fin 1000000000)))
      | _ \<Rightarrow> Inl AttributeError)"

text \<open>The decimal text of an integer, as an f-string prints \<open>ts_ns\<close>.\<close>

definition digit_char :: "int \<Rightarrow> char" where
  "digit_char d = ''0123456789'' ! nat d"

function str_digits :: "int \<Rightarrow> string" where
  "str_digits n = (if n < 10 then [digit_char n] else str_digits (n div 10) @ [digit_char (n mod 10)])"
  by pat_completeness auto
termination
  by (relation "measure nat") auto

declare str_digits.simps [simp del]

definition str_int :: "int \<Rightarrow> string" where
  "str_int i = (if i < 0 then CHR ''-'' # str_digits (- i) else str_digits i)"

text \<open>
  \<^verbatim>\<open>
  line = (f'sck_sensors,device_id={device_id},sensor_name={r["sensor_name"]} '
          f'value={r["value"]} {ts_ns}')
  \<close>
\<close>

definition format_line :: "env \<Rightarrow> string \<Rightarrow> reading \<Rightarrow> int \<Rightarrow> string" where
  "format_line E device_id r ts_ns =
     ''sck_sensors,device_id='' @ device_id @ '',sensor_name='' @ sensor_name r @ '' ''
     @ ''value='' @ float_repr E (value_of r) @ '' '' @ str_int ts_ns"

fun lines_loop :: "env \<Rightarrow> string \<Rightarrow> string list \<Rightarrow> reading list \<Rightarrow> exn + string list" where
  "lines_loop E device_id lines [] = Inr lines"
| "lines_loop E device_id lines (r # rs) =
     (case iso_to_ns E (timestamp r) of
        Inl e \<Rightarrow> Inl e
      | Inr ts_ns \<Rightarrow> lines_loop E device_id (lines @ [format_line E device_id r ts_ns]) rs)"

fun join_newline :: "string list \<Rightarrow> string" where
  "join_newline [] = []"
| "join_newline [l] = l"
| "join_newline (l # m # ls) = l @ [CHR 0x0A] @ join_newline (m # ls)"

text \<open>
  The calls made on the store client: \<open>client.write_api(...)\<close> and
  \<open>write_api.write(bucket, org, record)\<close>.
\<close>

datatype client_call =
    WriteApi
  | Write string string string

text \<open>
  What the world does during one cycle: whether \<open>_shutdown_event\<close> is set when the loop
  tests it, what \<open>fetch_device_data()\<close> returns or raises, whether the store raises on a
  write, and the text of \<open>datetime.now(timezone.utc).isoformat()\<close>.
\<close>

record world =
  shutdown_is_set :: bool
  fetch_device_data :: "exn + json"
  store_write :: "string \<Rightarrow> string \<Rightarrow> string \<Rightarrow> exn option"
  now_isoformat :: string

text \<open>
  \<^verbatim>\<open>
  if not readings:
      return 0
  write_api = client.write_api(write_options=SYNCHRONOUS)
  lines = []
  for r in readings: ...
  write_api.write(bucket=..., org=..., record="\n".join(lines))
  return len(lines)
  \<close>
  The result is the returned count or the exception, with the calls made on the client.
\<close>

definition write_to_influxdb ::
    "env \<Rightarrow> world \<Rightarrow> reading list \<Rightarrow> string \<Rightarrow> (exn + nat) \<times> client_call list" where
  "write_to_influxdb E W readings device_id =
     (if readings = [] then (Inr 0, [])
      else
        case lines_loop E device_id [] readings of
          Inl e \<Rightarrow> (Inl e, [WriteApi])
        | Inr lines \<Rightarrow>
            let record = join_newline lines;
                calls = [WriteApi, Write (INFLUXDB_BUCKET E) (INFLUXDB_ORG E) record]
            in case store_write W (INFLUXDB_BUCKET E) (INFLUXDB_ORG E) record of
                 Some e \<Rightarrow> (Inl e, calls)
               | None \<Rightarrow> (Inr (length lines), calls))"

section \<open>The poll cycle\<close>

text \<open>
  The module globals \<open>_last_poll_ts\<close>, \<open>_polls_total\<close> and \<open>_last_reading_at\<close>, and the
  line that \<open>poll_once\<close> logs before it returns.
\<close>

record poll_state =
  last_poll_ts :: "string option"
  polls_total :: int
  last_reading_at :: json

datatype logged =
    SkippingDuplicate json
  | NoValidReadings
  | Written nat json int

text \<open>
  \<^verbatim>\<open>
  data = fetch_device_data()
  device_reading_at = data.get("last_reading_at")
  if device_reading_at and device_reading_at == _last_reading_at:
      return
  readings = parse_sensors(data)
  if not readings:
      return
  count = write_to_influxdb(client, readings, config.SCK_DEVICE_ID)
  _last_reading_at = device_reading_at
  _last_poll_ts = datetime.now(timezone.utc).isoformat()
  _polls_total += 1
  \<close>
\<close>

definition poll_once ::
    "env \<Rightarrow> world \<Rightarrow> poll_state \<Rightarrow> (exn + logged) \<times> poll_state \<times> client_call list" where
  "poll_once E W st =
     (case fetch_device_data W of Inl e \<Rightarrow> (Inl e, st, []) | Inr data \<Rightarrow>
      case dict_get data ''last_reading_at'' JNull of Inl e \<Rightarrow> (Inl e, st, [])
      | Inr device_reading_at \<Rightarrow>
      if truthy device_reading_at \<and> py_eq device_reading_at (last_reading_at st)
      then (Inr (SkippingDuplicate device_reading_at), st, [])
      else
        case parse_sensors E data of Inl e \<Rightarrow> (Inl e, st, []) | Inr readings \<Rightarrow>
        if readings = [] then (Inr NoValidReadings, st, [])
        else
          case write_to_influxdb E W readings (SCK_DEVICE_ID E) of
            (Inl e, calls) \<Rightarrow> (Inl e, st, calls)
          | (Inr count, calls) \<Rightarrow>
              (Inr (Written count device_reading_at (polls_total st + 1)),
               st\<lparr>last_reading_at := device_reading_at,
                  last_poll_ts := Some (now_isoformat W),
                  polls_total := polls_total st + 1\<rparr>,
               calls))"

section \<open>The main loop\<close>

text \<open>
  \<^verbatim>\<open>def _backoff_sleep(attempt: int) -> float: return min(2**attempt, 300)\<close>

  The only caller, \<open>run\<close>, passes \<open>consecutive_errors\<close> just after adding 1 to a counter
  that starts at 0, so the argument is a natural number.
\<close>

definition backoff_sleep :: "nat \<Rightarrow> int" where
  "backoff_sleep attempt = min (2 ^ attempt) 300"

text \<open>
  The loop of \<open>run\<close>, one \<open>world\<close> per iteration; it ends when the shutdown event is
  found set. Its state is the poll state, the local \<open>consecutive_errors\<close>, the durations
  passed to \<open>_shutdown_event.wait\<close> and the calls made on the client so far. The two
  handlers, for \<open>requests.RequestException\<close> and for \<open>Exception\<close>, are kept apart as in
  the source. The health probe that \<open>run\<close> makes before the loop only logs.
\<close>

record loop_state =
  poll :: poll_state
  consecutive_errors :: nat
  waits :: "int list"
  client_calls :: "client_call list"

definition is_request_exception :: "exn \<Rightarrow> bool" where
  "is_request_exception e = (e = RequestException)"

definition run_cycle :: "env \<Rightarrow> world \<Rightarrow> loop_state \<Rightarrow> loop_state" where
  "run_cycle E W s =
     (case poll_once E W (poll s) of
        (Inr l, st, calls) \<Rightarrow>
          s\<lparr>poll := st, consecutive_errors := 0,
            waits := waits s @ [POLL_INTERVAL_SECONDS E],
            client_calls := client_calls s @ calls\<rparr>
      | (Inl e, st, calls) \<Rightarrow>
          if is_request_exception e
          then s\<lparr>poll := st, consecutive_errors := consecutive_errors s + 1,
                 waits := waits s @ [backoff_sleep (consecutive_errors s + 1)],
                 client_calls := client_calls s @ calls\<rparr>
          else s\<lparr>poll := st, consecutive_errors := consecutive_errors s + 1,
                 waits := waits s @ [backoff_sleep (consecutive_errors s + 1)],
                 client_calls := client_calls s @ calls\<rparr>)"

fun run_loop :: "env \<Rightarrow> world list \<Rightarrow> loop_state \<Rightarrow> loop_state" where
  "run_loop E [] s = s"
| "run_loop E (W # Ws) s = (if shutdown_is_set W then s else run_loop E Ws (run_cycle E W s))"

definition run :: "env \<Rightarrow> world list \<Rightarrow> poll_state \<Rightarrow> loop_state" where
  "run E Ws st = run_loop E Ws \<lparr>poll = st, consecutive_errors = 0, waits = [], client_calls = []\<rparr>"

section \<open>Notions used in the statements\<close>

text \<open>The calls that reach the store.\<close>

fun is_write :: "client_call \<Rightarrow> bool" where
  "is_write (Write bucket org record) = True"
| "is_write WriteApi = False"

text \<open>
  The relation between a raw sensor entry and the reading made from it, in the words of
  the normalizer's contract: the reading carries the entry's id, which the catalog maps
  to the reading's name; its value is the entry's non-null value converted by \<open>float\<close>;
  its timestamp is the entry's own \<open>last_reading_at\<close> when that is truthy, else the
  document's top-level one, and is not null.
\<close>

definition normalized_from :: "env \<Rightarrow> json \<Rightarrow> json \<Rightarrow> reading \<Rightarrow> bool" where
  "normalized_from E data s r =
     (dict_get s ''id'' (JInt (- 1)) = Inr (sensor_id r)
      \<and> (case int_key (sensor_id r) of
            Inr (Some k) \<Rightarrow> map_of SENSOR_NAME_MAP k = Some (sensor_name r)
          | _ \<Rightarrow> False)
      \<and> (case dict_get s ''value'' JNull of
            Inr v \<Rightarrow> v \<noteq> JNull \<and> py_float E v = Inr (value_of r)
          | Inl e \<Rightarrow> False)
      \<and> timestamp r \<noteq> JNull
      \<and> (case dict_get s ''last_reading_at'' JNull of
            Inr own \<Rightarrow>
              if truthy own then timestamp r = own
              else dict_get data ''last_reading_at'' JNull = Inr (timestamp r)
          | Inl e \<Rightarrow> False))"

text \<open>
  The documents on which \<open>parse_sensors\<close> returns. The document is an object; its
  \<open>data\<close> is absent or an object; the \<open>sensors\<close> of that are absent, a list, or a string
  or object that is empty; every entry of the list is an object whose id is not a list
  or an object and which, when the catalog lists the id, has a value that is absent or
  null, or no resolvable timestamp (its own \<open>last_reading_at\<close> is not truthy and the
  document's is absent or null), or a value that \<open>float\<close> accepts.
\<close>

definition top_timestamp :: "json \<Rightarrow> json" where
  "top_timestamp data =
     (case data of
        JObj kvs \<Rightarrow> (case map_of kvs ''last_reading_at'' of None \<Rightarrow> JNull | Some t \<Rightarrow> t)
      | _ \<Rightarrow> JNull)"

definition entry_ok :: "env \<Rightarrow> json \<Rightarrow> json \<Rightarrow> bool" where
  "entry_ok E tstamp s =
     (case s of
        JObj kvs \<Rightarrow>
          (let sid = (case map_of kvs ''id'' of None \<Rightarrow> JInt (- 1) | Some i \<Rightarrow> i);
               v = (case map_of kvs ''value'' of None \<Rightarrow> JNull | Some x \<Rightarrow> x);
               own = (case map_of kvs ''last_reading_at'' of None \<Rightarrow> JNull | Some x \<Rightarrow> x)
           in case SENSOR_NAME_MAP_get sid of
                Inl e \<Rightarrow> False
              | Inr None \<Rightarrow> True
              | Inr (Some name) \<Rightarrow>
                  v = JNull \<or> (\<not> truthy own \<and> tstamp = JNull)
                  \<or> (case py_float E v of Inr f \<Rightarrow> True | Inl e \<Rightarrow> False))
      | _ \<Rightarrow> False)"

definition sensor_entries :: "json \<Rightarrow> json list option" where
  "sensor_entries data =
     (case data of
        JObj kvs \<Rightarrow>
          (case map_of kvs ''data'' of
             None \<Rightarrow> Some []
           | Some (JObj dkvs) \<Rightarrow>
               (case map_of dkvs ''sensors'' of
                  None \<Rightarrow> Some []
                | Some (JArr ss) \<Rightarrow> Some ss
                | Some (JStr str) \<Rightarrow> (if str = [] then Some [] else None)
                | Some (JObj skvs) \<Rightarrow> (if skvs = [] then Some [] else None)
                | Some _ \<Rightarrow> None)
           | Some _ \<Rightarrow> None)
      | _ \<Rightarrow> None)"

definition payload_ok :: "env \<Rightarrow> json \<Rightarrow> bool" where
  "payload_ok E data =
     (case sensor_entries data of
        None \<Rightarrow> False
      | Some ss \<Rightarrow> list_all (entry_ok E (top_timestamp data)) ss)"

section \<open>Scenario data\<close>

text \<open>
  The data of the end-to-end scenarios: the default settings of \<^verbatim>\<open>config.py\<close>, the
  answers of the library on the strings and floats that occur in the scenarios (the
  floats are 21.5, 70.25 and 1.0; \<open>float("abc")\<close> raises \<open>ValueError\<close>; of the
  timestamps, four are whole seconds, 1770224447 being 2026-02-04T17:00:47Z and
  10413792002 being 2300-01-01T00:00:02Z, and three carry microseconds, for which
  \<open>timestamp()\<close> is the double nearest to the microseconds since the epoch divided by
  \<open>10^6\<close>: -539656225880, 2147483618000003 and 2147483678000003 microseconds), device
  documents, and a store that accepts or refuses every write.
\<close>

definition T1 :: string where "T1 = ''2026-02-04T17:00:47Z''"
definition T2 :: string where "T2 = ''2026-02-04T17:01:47Z''"

definition scenario_env :: env where
  "scenario_env =
     \<lparr>SCK_DEVICE_ID = ''19396'', INFLUXDB_ORG = ''sck'', INFLUXDB_BUCKET = ''sck_data'',
      POLL_INTERVAL_SECONDS = 60,
      float_of_str = map_of [(''21.5'', Fin (43 / 2)), (''70.25'', Fin (281 / 4))],
      float_repr = (\<lambda>f. if f = Fin (43 / 2) then ''21.5'' else if f = Fin (281 / 4) then ''70.25''
                        else ''1.0''),
      fromisoformat_timestamp =
        (\<lambda>s. case map_of [(''2026-02-04T17:00:47+00:00'', Fin 1770224447),
                            (''2026-02-04T17:01:47+00:00'', Fin 1770224507),
                            (''2300-01-01T00:00:02+00:00'', Fin 10413792002),
                            (''2300-01-01T00:01:02+00:00'', Fin 10413792062),
                            (''1969-12-25T18:05:43.774120+00:00'',
                               Fin (- (2317805841237389 / 4294967296))),
                            (''2038-01-19T03:13:38.000003+00:00'',
                               Fin (9007199128911885 / 4194304)),
                            (''2038-01-19T03:14:38.000003+00:00'',
                               Fin (2251799845142531 / 1048576))] s of
                None \<Rightarrow> Inl ValueError
              | Some t \<Rightarrow> Inr t)\<rparr>"

definition sensor_entry :: "int \<Rightarrow> json \<Rightarrow> string \<Rightarrow> json" where
  "sensor_entry i v t = JObj [(''id'', JInt i), (''value'', v), (''last_reading_at'', JStr t)]"

definition device_doc :: "json \<Rightarrow> json list \<Rightarrow> json" where
  "device_doc t sensors = JObj [(''last_reading_at'', t), (''data'', JObj [(''sensors'', JArr sensors)])]"

definition scenario_A :: json where
  "scenario_A =
     device_doc (JStr T1)
       [sensor_entry 55 (JFloat (Fin (43 / 2))) T1, sensor_entry 9999 (JFloat (Fin 1)) T1,
        sensor_entry 56 JNull T1]"

definition store_up :: "string \<Rightarrow> string \<Rightarrow> string \<Rightarrow> exn option" where
  "store_up bucket org record = None"

definition store_down :: "string \<Rightarrow> string \<Rightarrow> string \<Rightarrow> exn option" where
  "store_down bucket org record = Some (OtherException ''ApiException'')"

definition world_of :: "exn + json \<Rightarrow> (string \<Rightarrow> string \<Rightarrow> string \<Rightarrow> exn option) \<Rightarrow> world" where
  "world_of fetched store =
     \<lparr>shutdown_is_set = False, fetch_device_data = fetched, store_write = store,
      now_isoformat = ''2026-02-04T17:02:00.000000+00:00''\<rparr>"

definition initial_state :: poll_state where
  "initial_state = \<lparr>last_poll_ts = None, polls_total = 0, last_reading_at = JNull\<rparr>"

definition doc_blank_timestamp :: json where
  "doc_blank_timestamp = device_doc (JStr []) [sensor_entry 55 (JFloat (Fin (43 / 2))) T1]"


definition line_T1 :: string where
  "line_T1 = ''sck_sensors,device_id=19396,sensor_name=temperature value=21.5 1770224447000000000''"

definition polled :: "int \<Rightarrow> json \<Rightarrow> poll_state" where
  "polled n t =
     \<lparr>last_poll_ts = Some ''2026-02-04T17:02:00.000000+00:00'', polls_total = n,
      last_reading_at = t\<rparr>"

definition temperature_T1 :: reading where
  "temperature_T1 =
     \<lparr>sensor_id = JInt 55, sensor_name = ''temperature'', value_of = Fin (43 / 2),
      timestamp = JStr T1\<rparr>"

definition humidity_T1 :: reading where
  "humidity_T1 =
     \<lparr>sensor_id = JInt 56, sensor_name = ''humidity'', value_of = Fin (281 / 4),
      timestamp = JStr T1\<rparr>"

definition doc_unparsable_value :: json where
  "doc_unparsable_value =
     device_doc (JStr T1)
       [sensor_entry 56 (JFloat (Fin (281 / 4))) T1, sensor_entry 55 (JStr ''abc'') T1]"

definition doc_data_null :: json where
  "doc_data_null = JObj [(''last_reading_at'', JStr T1), (''data'', JNull)]"

definition doc_sensors_null :: json where
  "doc_sensors_null = JObj [(''last_reading_at'', JStr T1), (''data'', JObj [(''sensors'', JNull)])]"

definition doc_entry_not_object :: json where
  "doc_entry_not_object = device_doc (JStr T1) [JInt 55]"

section \<open>Exact and inexact products\<close>

lemma round_half_even_int: "round_half_even (of_int k) = k"
  by (simp add: round_half_even_def)

lemma floor_log2_int:
  assumes "0 < n"
  shows "floor_log2 (of_int n) = bitlen n - 1"
proof -
  from assms have b: "1 \<le> bitlen n"
    using bitlen_eq_zero_iff[of n] bitlen_nonneg[of n] by linarith
  from bitlen_bounds[OF assms] have "(2::int) ^ nat (bitlen n - 1) \<le> n" by simp
  then have "(of_int ((2::int) ^ nat (bitlen n - 1)) :: rat) \<le> of_int n"
    by (simp only: of_int_le_iff)
  then have "pow2 (bitlen n - 1) \<le> of_int n"
    using b by (simp add: pow2_def)
  moreover have "bitlen 1 = 1"
    using bitlen_twopow_add_eq[of 0 0] by simp
  ultimately show ?thesis
    by (simp add: floor_log2_def Let_def)
qed

lemma pow2_pos: "0 < pow2 e"
  by (simp add: pow2_def)

lemma round_double_on_grid:
  assumes "0 < a" and "max (floor_log2 a - 52) (- 1074) = e"
    and "a / pow2 e = of_int q" and "a < pow2 1024"
  shows "round_double a = Fin a" and "round_double (- a) = Fin (- a)"
proof -
  from pow2_pos[of e] have "pow2 e \<noteq> 0" by simp
  with assms(3) have "of_int q * pow2 e = a"
    by (simp add: field_simps)
  then have r: "of_int (round_half_even (a / pow2 e)) * pow2 e = a"
    by (simp add: assms(3) round_half_even_int)
  from assms(1) have abs: "\<bar>a\<bar> = a" "\<bar>- a\<bar> = a" by simp_all
  from assms(1,4) show "round_double a = Fin a"
    unfolding round_double_def abs Let_def assms(2) r by simp
  from assms(1,4) show "round_double (- a) = Fin (- a)"
    unfolding round_double_def abs Let_def assms(2) r by simp
qed

lemma round_double_exact:
  assumes "0 < m" and "m < 2 ^ 53" and "k \<le> 970"
  shows "round_double (of_int (m * 2 ^ k)) = Fin (of_int (m * 2 ^ k))"
    and "round_double (- of_int (m * 2 ^ k)) = Fin (- of_int (m * 2 ^ k))"
proof -
  define n where "n = m * 2 ^ k"
  define e where "e = max (bitlen n - 53) (- 1074)"
  have npos: "0 < n" using assms(1) by (simp add: n_def)
  have "bitlen n = bitlen m + int k"
    unfolding n_def by (rule bitlen_pow2[OF assms(1)])
  moreover from assms(2) have "bitlen m \<le> 53"
    by (simp add: bitlen_le_iff_power)
  ultimately have bl: "bitlen n \<le> 53 + int k" by simp
  then have ek: "e \<le> int k" by (simp add: e_def)
  have "\<exists>q. (of_int n :: rat) / pow2 e = of_int q"
  proof (cases "0 \<le> e")
    case True
    with ek have le: "nat e \<le> k" by simp
    have "n = (m * 2 ^ (k - nat e)) * 2 ^ nat e"
      unfolding n_def using le by (simp add: power_add[symmetric])
    then have "(of_int n :: rat) = of_int (m * 2 ^ (k - nat e)) * 2 ^ nat e"
      by (metis of_int_mult of_int_numeral of_int_power)
    with True show ?thesis
      by (intro exI[of _ "m * 2 ^ (k - nat e)"]) (simp add: pow2_def)
  next
    case False
    then show ?thesis
      by (intro exI[of _ "n * 2 ^ nat (- e)"]) (simp add: pow2_def)
  qed
  then obtain q where q: "(of_int n :: rat) / pow2 e = of_int q" by blast
  have "n < 2 ^ (53 + k)"
    using assms(1,2) by (simp add: n_def power_add)
  also have "\<dots> \<le> (2::int) ^ 1024"
    using assms(3) by (intro power_increasing) simp_all
  finally have "(of_int n :: rat) < of_int (2 ^ 1024)"
    by (simp only: of_int_less_iff)
  then have small: "(of_int n :: rat) < pow2 1024"
    by (simp add: pow2_def)
  from npos have "floor_log2 (of_int n) = bitlen n - 1" by (rule floor_log2_int)
  then have ee: "max (floor_log2 (of_int n) - 52) (- 1074) = e"
    by (simp add: e_def)
  from npos have pos: "(0::rat) < of_int n" by simp
  from round_double_on_grid[OF pos ee q small]
  show "round_double (of_int (m * 2 ^ k)) = Fin (of_int (m * 2 ^ k))"
    and "round_double (- of_int (m * 2 ^ k)) = Fin (- of_int (m * 2 ^ k))"
    by (simp_all only: n_def)
qed

lemma float_mul_whole_seconds:
  assumes "\<bar>n\<bar> \<le> 4611686018"
  shows "float_mul (Fin (of_int n)) (Fin 1000000000) = Fin (of_int (n * 1000000000))"
proof -
  have prod: "(of_int n :: rat) * 1000000000 = of_int (n * 1000000000)" by simp
  have k: "(9::nat) \<le> 970" by simp
  consider (zero) "n = 0" | (pos) "0 < n" | (neg) "n < 0" by linarith
  then have "(of_int n :: rat) * 1000000000 \<noteq> 0 \<longrightarrow>
             round_double (of_int (n * 1000000000)) = Fin (of_int (n * 1000000000))"
  proof cases
    case zero
    then show ?thesis by simp
  next
    case pos
    with assms have m: "0 < n * 5 ^ 9" "n * 5 ^ 9 < 2 ^ 53" by simp_all
    have e: "n * 1000000000 = (n * 5 ^ 9) * 2 ^ 9" by simp
    have "round_double (of_int (n * 1000000000)) = Fin (of_int (n * 1000000000))"
      unfolding e by (rule round_double_exact(1)[OF m k])
    then show ?thesis by blast
  next
    case neg
    with assms have m: "0 < (- n) * 5 ^ 9" "(- n) * 5 ^ 9 < 2 ^ 53" by simp_all
    have e: "(of_int (n * 1000000000) :: rat) = - of_int (((- n) * 5 ^ 9) * 2 ^ 9)" by simp
    have "round_double (of_int (n * 1000000000)) = Fin (of_int (n * 1000000000))"
      unfolding e by (rule round_double_exact(2)[OF m k])
    then show ?thesis by blast
  qed
  then show ?thesis
    by (simp add: float_mul_def prod del: of_int_mult)
qed

lemma py_trunc_int: "py_trunc (of_int k) = k"
  by (simp add: py_trunc_def)

lemma iso_to_ns_whole_seconds:
  assumes "fromisoformat_timestamp E (replace_Z s) = Inr (Fin (of_int n))"
    and "\<bar>n\<bar> \<le> 4611686018"
  shows "iso_to_ns E (JStr s) = Inr (n * 1000000000)"
proof -
  have "int_of_float (Fin (of_int (n * 1000000000))) = Inr (n * 1000000000)"
    by (simp only: int_of_float.simps py_trunc_int)
  with assms(1) float_mul_whole_seconds[OF assms(2)] show ?thesis
    by (simp add: iso_to_ns_def del: of_int_mult)
qed

lemma replace_Z_append: "replace_Z (p @ q) = replace_Z p @ replace_Z q"
  by (induction p) simp_all

lemma floor_rat_numeral: "\<lfloor>(numeral a :: rat) / numeral b\<rfloor> = numeral a div numeral b"
  using floor_divide_of_int_eq[of "numeral a" "numeral b", where ?'a = rat] by simp

lemma float_mul_2300_00_02:
  "float_mul (Fin 10413792002) (Fin 1000000000) = Fin 10413792001999998976"
proof -
  have "bitlen 10413792002000000000 \<le> 64" by (simp add: bitlen_le_iff_power)
  moreover have "64 \<le> bitlen 10413792002000000000" by (simp add: bitlen_ge_iff_power)
  ultimately have "floor_log2 10413792002000000000 = 63"
    using floor_log2_int[of 10413792002000000000] by simp
  then have "round_double 10413792002000000000 = Fin 10413792001999998976"
    by (simp add: round_double_def Let_def pow2_def round_half_even_def floor_rat_numeral)
  then show ?thesis by (simp add: float_mul_def)
qed

lemma float_mul_2300_01_02:
  "float_mul (Fin 10413792062) (Fin 1000000000) = Fin 10413792062000001024"
proof -
  have "bitlen 10413792062000000000 \<le> 64" by (simp add: bitlen_le_iff_power)
  moreover have "64 \<le> bitlen 10413792062000000000" by (simp add: bitlen_ge_iff_power)
  ultimately have "floor_log2 10413792062000000000 = 63"
    using floor_log2_int[of 10413792062000000000] by simp
  then have "round_double 10413792062000000000 = Fin 10413792062000001024"
    by (simp add: round_double_def Let_def pow2_def round_half_even_def floor_rat_numeral)
  then show ?thesis by (simp add: float_mul_def)
qed

lemma pow2_powi: "pow2 e = 2 powi e"
proof (cases "0 \<le> e")
  case True
  then show ?thesis by (simp add: pow2_def power_int_def)
next
  case False
  have "inverse (2::rat) ^ nat (- e) = 1 / 2 ^ nat (- e)"
    by (simp only: inverse_eq_divide power_one_over)
  with False show ?thesis by (simp only: pow2_def power_int_def if_False)
qed

lemma pow2_mono: "i \<le> j \<Longrightarrow> pow2 i \<le> pow2 j"
  by (simp add: pow2_powi power_int_increasing)

lemma floor_log2_bounds:
  assumes "0 < a"
  shows "pow2 (floor_log2 a) \<le> a" and "a < pow2 (floor_log2 a + 1)"
proof -
  obtain p q where pq: "quotient_of a = (p, q)" by (cases "quotient_of a")
  then have q: "0 < q" by (rule quotient_of_denom_pos)
  from pq have a: "a = of_int p / of_int q" by (rule quotient_of_div)
  with assms q have p: "0 < p" by (simp add: zero_less_divide_iff)
  define d where "d = bitlen p - bitlen q"
  from p q have bp: "1 \<le> bitlen p" and bq: "1 \<le> bitlen q"
    using bitlen_eq_zero_iff[of p] bitlen_eq_zero_iff[of q] bitlen_nonneg[of p] bitlen_nonneg[of q]
    by linarith+
  have conv: "(of_int ((2::int) ^ nat k) :: rat) = pow2 k" if "0 \<le> k" for k
    using that by (simp add: pow2_def)
  from bitlen_bounds[OF p] have "(of_int (2 ^ nat (bitlen p - 1)) :: rat) \<le> of_int p"
    and "(of_int p :: rat) < of_int (2 ^ nat (bitlen p))"
    by (simp_all only: of_int_le_iff of_int_less_iff)
  with bp have pl: "pow2 (bitlen p - 1) \<le> of_int p" and pu: "of_int p < pow2 (bitlen p)"
    by (simp_all add: pow2_def)
  from bitlen_bounds[OF q] have "(of_int (2 ^ nat (bitlen q - 1)) :: rat) \<le> of_int q"
    and "(of_int q :: rat) < of_int (2 ^ nat (bitlen q))"
    by (simp_all only: of_int_le_iff of_int_less_iff)
  with bq have ql: "pow2 (bitlen q - 1) \<le> of_int q" and qu: "of_int q < pow2 (bitlen q)"
    by (simp_all add: pow2_def)
  have "pow2 (d - 1) = pow2 (bitlen p - 1) / pow2 (bitlen q)"
    by (simp add: pow2_powi d_def power_int_diff)
  also have "\<dots> \<le> of_int p / of_int q"
    using pl qu q pow2_pos[of "bitlen p - 1"] by (intro frac_le) simp_all
  finally have low: "pow2 (d - 1) \<le> a" by (simp add: a)
  have "of_int p / of_int q < pow2 (bitlen p) / pow2 (bitlen q - 1)"
    using pu ql p pow2_pos[of "bitlen q - 1"] by (intro frac_less) simp_all
  also have "\<dots> = 2 powi (bitlen p - (bitlen q - 1))"
    by (subst power_int_diff) (simp_all add: pow2_powi)
  also have "\<dots> = pow2 (d + 1)"
    by (simp add: pow2_powi d_def algebra_simps)
  finally have up: "a < pow2 (d + 1)" by (simp add: a)
  have fl: "floor_log2 a = (if pow2 d \<le> a then d else d - 1)"
    by (simp add: floor_log2_def Let_def pq d_def)
  from low fl show "pow2 (floor_log2 a) \<le> a" by simp
  from up fl show "a < pow2 (floor_log2 a + 1)" by (auto simp: not_le)
qed

lemma floor_log2_unique:
  assumes "0 < a" and "pow2 fl \<le> a" and "a < pow2 (fl + 1)"
  shows "floor_log2 a = fl"
proof (rule antisym)
  show "floor_log2 a \<le> fl"
  proof (rule ccontr)
    assume "\<not> floor_log2 a \<le> fl"
    then have "pow2 (fl + 1) \<le> pow2 (floor_log2 a)" by (intro pow2_mono) simp
    with floor_log2_bounds(1)[OF assms(1)] assms(3) show False by simp
  qed
  show "fl \<le> floor_log2 a"
  proof (rule ccontr)
    assume "\<not> fl \<le> floor_log2 a"
    then have "pow2 (floor_log2 a + 1) \<le> pow2 fl" by (intro pow2_mono) simp
    with floor_log2_bounds(2)[OF assms(1)] assms(2) show False by simp
  qed
qed

lemma round_double_eval:
  assumes "0 < a" and "pow2 fl \<le> a" and "a < pow2 (fl + 1)"
    and "round_half_even (a / pow2 (max (fl - 52) (- 1074))) = m"
    and "m \<noteq> 0" and "of_int m * pow2 (max (fl - 52) (- 1074)) < pow2 1024"
  shows "round_double a = Fin (of_int m * pow2 (max (fl - 52) (- 1074)))"
    and "round_double (- a) = Fin (- (of_int m * pow2 (max (fl - 52) (- 1074))))"
proof -
  from assms(1-3) have fl: "floor_log2 a = fl" by (rule floor_log2_unique)
  from assms(1) have abs: "\<bar>a\<bar> = a" "\<bar>- a\<bar> = a" by simp_all
  from assms(5) pow2_pos[of "max (fl - 52) (- 1074)"]
  have nz: "of_int m * pow2 (max (fl - 52) (- 1074)) \<noteq> 0" by simp
  from assms(1,6) nz show "round_double a = Fin (of_int m * pow2 (max (fl - 52) (- 1074)))"
    unfolding round_double_def abs Let_def fl assms(4) by simp
  from assms(1,6) nz show "round_double (- a) = Fin (- (of_int m * pow2 (max (fl - 52) (- 1074))))"
    unfolding round_double_def abs Let_def fl assms(4) by simp
qed

lemma float_mul_Fin:
  "float_mul (Fin p) (Fin q) =
     (if p * q = 0 then (if (p < 0) \<noteq> (q < 0) then NegZero else Fin 0)
      else round_double (p * q))"
  by (simp add: float_mul_def)

lemma timestamp_1969:
  "round_double (- (539656225880 / 1000000)) = Fin (- (2317805841237389 / 4294967296))"
proof -
  have "round_double (- (539656225880 / 1000000))
        = Fin (- (of_int 4635611682474778 * pow2 (max (19 - 52) (- 1074))))"
  proof (rule round_double_eval(2))
    show "round_half_even (539656225880 / 1000000 / pow2 (max (19 - 52) (- 1074)))
          = 4635611682474778"
      by (simp add: pow2_def round_half_even_def floor_rat_numeral)
  qed (simp_all add: pow2_def)
  then show ?thesis by (simp add: pow2_def)
qed

lemma float_mul_1969:
  "float_mul (Fin (- (2317805841237389 / 4294967296))) (Fin 1000000000)
   = Fin (- (8634499614080001 / 16))"
proof -
  define a :: rat where "a = 2317805841237389 / 4294967296 * 1000000000"
  have "round_double (- a) = Fin (- (of_int 8634499614080001 * pow2 (max (48 - 52) (- 1074))))"
  proof (rule round_double_eval(2))
    show "round_half_even (a / pow2 (max (48 - 52) (- 1074))) = 8634499614080001"
      by (simp add: a_def pow2_def round_half_even_def floor_rat_numeral)
  qed (simp_all add: a_def pow2_def)
  then have r: "round_double (- a) = Fin (- (8634499614080001 / 16))"
    by (simp add: pow2_def)
  have eq: "- (2317805841237389 / 4294967296) * (1000000000::rat) = - a"
    by (simp add: a_def)
  have nz: "- a \<noteq> 0" by (simp add: a_def)
  show ?thesis
    by (subst float_mul_Fin, subst eq, subst eq) (simp only: nz r if_False)
qed

lemma timestamp_2038_13:
  "round_double (2147483618000003 / 1000000) = Fin (9007199128911885 / 4194304)"
proof -
  have "round_double (2147483618000003 / 1000000)
        = Fin (of_int 9007199128911885 * pow2 (max (30 - 52) (- 1074)))"
  proof (rule round_double_eval(1))
    show "round_half_even (2147483618000003 / 1000000 / pow2 (max (30 - 52) (- 1074)))
          = 9007199128911885"
      by (simp add: pow2_def round_half_even_def floor_rat_numeral)
  qed (simp_all add: pow2_def)
  then show ?thesis by (simp add: pow2_def)
qed

lemma timestamp_2038_14:
  "round_double (2147483678000003 / 1000000) = Fin (2251799845142531 / 1048576)"
proof -
  have "round_double (2147483678000003 / 1000000)
        = Fin (of_int 4503599690285062 * pow2 (max (31 - 52) (- 1074)))"
  proof (rule round_double_eval(1))
    show "round_half_even (2147483678000003 / 1000000 / pow2 (max (31 - 52) (- 1074)))
          = 4503599690285062"
      by (simp add: pow2_def round_half_even_def floor_rat_numeral)
  qed (simp_all add: pow2_def)
  then show ?thesis by (simp add: pow2_def)
qed

lemma float_mul_2038_13:
  "float_mul (Fin (9007199128911885 / 4194304)) (Fin 1000000000) = Fin 2147483618000003072"
proof -
  define a :: rat where "a = 9007199128911885 / 4194304 * 1000000000"
  have "round_double a = Fin (of_int 8388607882812512 * pow2 (max (60 - 52) (- 1074)))"
  proof (rule round_double_eval(1))
    show "round_half_even (a / pow2 (max (60 - 52) (- 1074))) = 8388607882812512"
      by (simp add: a_def pow2_def round_half_even_def floor_rat_numeral)
  qed (simp_all add: a_def pow2_def)
  then have r: "round_double a = Fin 2147483618000003072"
    by (simp add: pow2_def)
  have eq: "9007199128911885 / 4194304 * (1000000000::rat) = a"
    by (simp add: a_def)
  have nz: "a \<noteq> 0" by (simp add: a_def)
  show ?thesis
    by (subst float_mul_Fin, subst eq, subst eq) (simp only: nz r if_False)
qed

lemma float_mul_2038_14:
  "float_mul (Fin (2251799845142531 / 1048576)) (Fin 1000000000) = Fin 2147483678000002816"
proof -
  define a :: rat where "a = 2251799845142531 / 1048576 * 1000000000"
  have "round_double a = Fin (of_int 8388608117187511 * pow2 (max (60 - 52) (- 1074)))"
  proof (rule round_double_eval(1))
    show "round_half_even (a / pow2 (max (60 - 52) (- 1074))) = 8388608117187511"
      by (simp add: a_def pow2_def round_half_even_def floor_rat_numeral)
  qed (simp_all add: a_def pow2_def)
  then have r: "round_double a = Fin 2147483678000002816"
    by (simp add: pow2_def)
  have eq: "2251799845142531 / 1048576 * (1000000000::rat) = a"
    by (simp add: a_def)
  have nz: "a \<noteq> 0" by (simp add: a_def)
  show ?thesis
    by (subst float_mul_Fin, subst eq, subst eq) (simp only: nz r if_False)
qed

lemma round_half_even_nonneg: "0 \<le> x \<Longrightarrow> 0 \<le> round_half_even x"
  by (auto simp: round_half_even_def Let_def)

lemma round_double_sign:
  assumes "round_double x = Fin r"
  shows "(0 \<le> x \<longrightarrow> 0 \<le> r) \<and> (x < 0 \<longrightarrow> r < 0)"
proof (cases "x = 0")
  case True
  with assms show ?thesis by (simp add: round_double_def)
next
  case False
  define e where "e = max (floor_log2 \<bar>x\<bar> - 52) (- 1074)"
  define m where "m = round_half_even (\<bar>x\<bar> / pow2 e)"
  have "0 \<le> \<bar>x\<bar> / pow2 e" using pow2_pos[of e] by simp
  then have "0 \<le> m" unfolding m_def by (rule round_half_even_nonneg)
  with pow2_pos[of e] have nn: "0 \<le> of_int m * pow2 e" by simp
  from assms False have "r = (if x < 0 then - (of_int m * pow2 e) else of_int m * pow2 e)
      \<and> (x < 0 \<longrightarrow> of_int m * pow2 e \<noteq> 0)"
    unfolding round_double_def Let_def e_def[symmetric] m_def[symmetric]
    by (auto split: if_splits)
  with nn False show ?thesis by (auto simp: less_le)
qed

lemma float_mul_ns_sign:
  assumes "float_mul (Fin q) (Fin 1000000000) = Fin p"
  shows "(0 \<le> q \<longrightarrow> 0 \<le> p) \<and> (q < 0 \<longrightarrow> p < 0)"
proof (cases "q = 0")
  case True
  with assms show ?thesis by (simp add: float_mul_Fin)
next
  case False
  with assms have "round_double (q * 1000000000) = Fin p"
    by (simp add: float_mul_Fin)
  from round_double_sign[OF this] show ?thesis
    by (simp add: zero_le_mult_iff mult_less_0_iff)
qed

lemma iso_to_ns_truncates:
  assumes "fromisoformat_timestamp E (replace_Z s) = Inr (Fin q)"
    and "float_mul (Fin q) (Fin 1000000000) = Fin p"
  shows "iso_to_ns E (JStr s) = Inr (if 0 \<le> q then \<lfloor>p\<rfloor> else \<lceil>p\<rceil>)"
proof -
  from float_mul_ns_sign[OF assms(2)] have "py_trunc p = (if 0 \<le> q then \<lfloor>p\<rfloor> else \<lceil>p\<rceil>)"
    by (auto simp: py_trunc_def)
  with assms show ?thesis by (simp add: iso_to_ns_def)
qed

section \<open>Evaluation of the scenarios\<close>

lemma mul_T1: "float_mul (Fin 1770224447) (Fin 1000000000) = Fin 1770224447000000000"
  using float_mul_whole_seconds[of 1770224447] by simp

lemma iso_T1: "iso_to_ns scenario_env (JStr T1) = Inr 1770224447000000000"
  by (simp add: iso_to_ns_def scenario_env_def T1_def mul_T1 py_trunc_def)

lemma str_int_T1: "str_int 1770224447000000000 = ''1770224447000000000''"
  by (simp add: str_int_def str_digits.simps digit_char_def)

lemma entry_55:
  "parse_entry E (device_doc t ss) (sensor_entry 55 (JFloat (Fin (43 / 2))) T1) = Inr (Some temperature_T1)"
  by (simp add: parse_entry_def sensor_entry_def dict_get_def SENSOR_NAME_MAP_get_def
      SENSOR_NAME_MAP_def py_float_def temperature_T1_def T1_def)

lemma entry_9999:
  "parse_entry E (device_doc t ss) (sensor_entry 9999 v T1) = Inr None"
  by (simp add: parse_entry_def sensor_entry_def dict_get_def SENSOR_NAME_MAP_get_def
      SENSOR_NAME_MAP_def)

lemma entry_56_null:
  "parse_entry E (device_doc t ss) (sensor_entry 56 JNull T1) = Inr None"
  by (simp add: parse_entry_def sensor_entry_def dict_get_def SENSOR_NAME_MAP_get_def
      SENSOR_NAME_MAP_def)

lemma parse_sensors_device_doc:
  "parse_sensors E (device_doc t ss) = parse_loop E (device_doc t ss) [] ss"
  by (simp add: parse_sensors_def device_doc_def dict_get_def py_iter_def)

lemma top_device_doc: "dict_get (device_doc t ss) ''last_reading_at'' JNull = Inr t"
  by (simp add: device_doc_def dict_get_def)

lemma parse_scenario_A: "parse_sensors E scenario_A = Inr [temperature_T1]"
  by (simp add: scenario_A_def parse_sensors_device_doc entry_55 entry_9999 entry_56_null)

lemma write_temperature_T1:
  "write_to_influxdb scenario_env (world_of f store) [temperature_T1] ''19396'' =
     (case store ''sck_data'' ''sck'' line_T1 of Some e \<Rightarrow> Inl e | None \<Rightarrow> Inr 1,
      [WriteApi, Write ''sck_data'' ''sck'' line_T1])"
proof -
  have "lines_loop scenario_env ''19396'' [] [temperature_T1] = Inr [line_T1]"
    by (simp add: temperature_T1_def iso_T1 format_line_def str_int_T1 line_T1_def)
       (simp add: scenario_env_def)
  then show ?thesis
    by (simp add: write_to_influxdb_def world_of_def scenario_env_def temperature_T1_def
        split: option.split)
qed

lemma device_id_scenario: "SCK_DEVICE_ID scenario_env = ''19396''"
  by (simp add: scenario_env_def)

lemma py_eq_nan:
  "\<not> py_eq (JFloat NaN) (JFloat NaN)"
  "py_eq (JArr [JFloat NaN]) (JArr [JFloat NaN])"
  "py_eq (JObj [(''t'', JFloat NaN)]) (JObj [(''t'', JFloat NaN)])"
  "py_eq (JInt 1) (JBool True)"
  "py_eq (JFloat NegZero) (JInt 0)"
  by (simp_all add: py_eq.simps)

lemma fetch_world_of: "fetch_device_data (world_of f store) = f"
  by (simp add: world_of_def)

lemma now_world_of: "now_isoformat (world_of f store) = ''2026-02-04T17:02:00.000000+00:00''"
  by (simp add: world_of_def)

lemma top_scenario_A: "dict_get scenario_A ''last_reading_at'' JNull = Inr (JStr T1)"
  by (simp add: scenario_A_def top_device_doc)

lemma poll_scenario_A_up:
  "\<not> py_eq (JStr T1) (last_reading_at st) \<Longrightarrow>
   poll_once scenario_env (world_of (Inr scenario_A) store_up) st =
     (Inr (Written 1 (JStr T1) (polls_total st + 1)),
      st\<lparr>last_reading_at := JStr T1,
         last_poll_ts := Some ''2026-02-04T17:02:00.000000+00:00'',
         polls_total := polls_total st + 1\<rparr>,
      [WriteApi, Write ''sck_data'' ''sck'' line_T1])"
  by (simp add: poll_once_def fetch_world_of now_world_of top_scenario_A parse_scenario_A
      write_temperature_T1 device_id_scenario store_up_def)

section \<open>Properties of the timestamp conversion\<close>

lemma iso_1969:
  "iso_to_ns scenario_env (JStr ''1969-12-25T18:05:43.774120Z'') = Inr (- 539656225880000)"
  by (simp add: iso_to_ns_def scenario_env_def float_mul_1969 py_trunc_def ceiling_def
      floor_rat_numeral)

lemma iso_2038_13:
  "iso_to_ns scenario_env (JStr ''2038-01-19T03:13:38.000003Z'') = Inr 2147483618000003072"
  by (simp add: iso_to_ns_def scenario_env_def float_mul_2038_13 py_trunc_def)

lemma iso_2038_14:
  "iso_to_ns scenario_env (JStr ''2038-01-19T03:14:38.000003Z'') = Inr 2147483678000002816"
  by (simp add: iso_to_ns_def scenario_env_def float_mul_2038_14 py_trunc_def)

text \<open>
  Claim C5, as the code has it. \<open>_iso_to_ns\<close> replaces every \<open>Z\<close> by \<open>+00:00\<close> before
  parsing, so a string ending in \<open>Z\<close> and the same string ending in \<open>+00:00\<close> convert
  alike. The result is \<open>int(dt.timestamp() * 1_000_000_000)\<close>: the product of two
  doubles, which is a double again, made an integer by rounding towards zero, that is
  down for a timestamp at or after the epoch and up for an earlier one. For a
  whole-second timestamp whose epoch seconds are at most 4611686018 in absolute value
  (through 20 February 2116) the product is exact, so the result is the epoch seconds
  times \<open>10^9\<close>, and two such timestamps 60 seconds apart differ by exactly
  \<open>60_000_000_000\<close>.
\<close>

theorem iso_to_ns_exact_in_range:
  "iso_to_ns E (JStr (p @ ''Z'')) = iso_to_ns E (JStr (p @ ''+00:00''))
   \<and> (fromisoformat_timestamp E (replace_Z u) = Inr (Fin q)
        \<and> float_mul (Fin q) (Fin 1000000000) = Fin x \<longrightarrow>
        iso_to_ns E (JStr u) = Inr (if 0 \<le> q then \<lfloor>x\<rfloor> else \<lceil>x\<rceil>))
   \<and> (fromisoformat_timestamp E (replace_Z s) = Inr (Fin (of_int n))
        \<and> \<bar>n\<bar> \<le> 4611686018 \<longrightarrow>
        iso_to_ns E (JStr s) = Inr (n * 1000000000))
   \<and> (fromisoformat_timestamp E (replace_Z s) = Inr (Fin (of_int n))
        \<and> fromisoformat_timestamp E (replace_Z s') = Inr (Fin (of_int (n + 60)))
        \<and> \<bar>n\<bar> \<le> 4611686018 \<and> \<bar>n + 60\<bar> \<le> 4611686018 \<longrightarrow>
        (\<exists>a b. iso_to_ns E (JStr s) = Inr a \<and> iso_to_ns E (JStr s') = Inr b
           \<and> b - a = 60000000000))"
proof (intro conjI impI)
  have "replace_Z (p @ ''Z'') = replace_Z (p @ ''+00:00'')"
    by (simp add: replace_Z_append)
  then show "iso_to_ns E (JStr (p @ ''Z'')) = iso_to_ns E (JStr (p @ ''+00:00''))"
    by (simp add: iso_to_ns_def)
next
  assume "fromisoformat_timestamp E (replace_Z u) = Inr (Fin q)
          \<and> float_mul (Fin q) (Fin 1000000000) = Fin x"
  then show "iso_to_ns E (JStr u) = Inr (if 0 \<le> q then \<lfloor>x\<rfloor> else \<lceil>x\<rceil>)"
    by (intro iso_to_ns_truncates) simp_all
next
  assume "fromisoformat_timestamp E (replace_Z s) = Inr (Fin (of_int n))
          \<and> \<bar>n\<bar> \<le> 4611686018"
  then show "iso_to_ns E (JStr s) = Inr (n * 1000000000)"
    by (simp add: iso_to_ns_whole_seconds)
next
  assume a: "fromisoformat_timestamp E (replace_Z s) = Inr (Fin (of_int n))
        \<and> fromisoformat_timestamp E (replace_Z s') = Inr (Fin (of_int (n + 60)))
        \<and> \<bar>n\<bar> \<le> 4611686018 \<and> \<bar>n + 60\<bar> \<le> 4611686018"
  then have "iso_to_ns E (JStr s) = Inr (n * 1000000000)"
    by (simp add: iso_to_ns_whole_seconds)
  moreover from a have "iso_to_ns E (JStr s') = Inr ((n + 60) * 1000000000)"
    by (intro iso_to_ns_whole_seconds) simp_all
  ultimately show "\<exists>a b. iso_to_ns E (JStr s) = Inr a \<and> iso_to_ns E (JStr s') = Inr b
           \<and> b - a = 60000000000"
    by (simp add: algebra_simps)
qed

theorem iso_to_ns_exact_in_range_witness:
  "fromisoformat_timestamp scenario_env (replace_Z T1) = Inr (Fin (of_int 1770224447))
   \<and> fromisoformat_timestamp scenario_env (replace_Z T2) = Inr (Fin (of_int (1770224447 + 60)))
   \<and> \<bar>1770224447 :: int\<bar> \<le> 4611686018 \<and> \<bar>1770224447 + 60 :: int\<bar> \<le> 4611686018
   \<and> iso_to_ns scenario_env (JStr T1) = Inr 1770224447000000000
   \<and> iso_to_ns scenario_env (JStr T2) = Inr 1770224507000000000
   \<and> iso_to_ns scenario_env (JStr ''2026-02-04T17:00:47Z'')
       = iso_to_ns scenario_env (JStr ''2026-02-04T17:00:47+00:00'')
   \<and> fromisoformat_timestamp scenario_env (replace_Z ''1969-12-25T18:05:43.774120Z'')
       = Inr (Fin (- (2317805841237389 / 4294967296)))
   \<and> float_mul (Fin (- (2317805841237389 / 4294967296))) (Fin 1000000000)
       = Fin (- (8634499614080001 / 16))
   \<and> iso_to_ns scenario_env (JStr ''1969-12-25T18:05:43.774120Z'')
       = Inr \<lceil>- (8634499614080001 / 16) :: rat\<rceil>"
proof -
  have t1: "fromisoformat_timestamp scenario_env (replace_Z T1) = Inr (Fin (of_int 1770224447))"
    by (simp add: scenario_env_def T1_def)
  have t2: "fromisoformat_timestamp scenario_env (replace_Z T2)
            = Inr (Fin (of_int (1770224447 + 60)))"
    by (simp add: scenario_env_def T2_def)
  have r: "\<bar>1770224447 :: int\<bar> \<le> 4611686018" "\<bar>1770224447 + 60 :: int\<bar> \<le> 4611686018"
    by simp_all
  have t0: "fromisoformat_timestamp scenario_env (replace_Z ''1969-12-25T18:05:43.774120Z'')
       = Inr (Fin (- (2317805841237389 / 4294967296)))"
    by (simp add: scenario_env_def)
  note inst = iso_to_ns_exact_in_range[where E = scenario_env and n = 1770224447
      and s = T1 and s' = T2 and p = "''2026-02-04T17:00:47''"
      and u = "''1969-12-25T18:05:43.774120Z''" and q = "- (2317805841237389 / 4294967296)"
      and x = "- (8634499614080001 / 16)"]
  from inst t1 r have a: "iso_to_ns scenario_env (JStr T1) = Inr (1770224447 * 1000000000)"
    by blast
  from inst t1 t2 r have "\<exists>a b. iso_to_ns scenario_env (JStr T1) = Inr a
      \<and> iso_to_ns scenario_env (JStr T2) = Inr b \<and> b - a = 60000000000"
    by blast
  with a have b: "iso_to_ns scenario_env (JStr T2) = Inr 1770224507000000000"
    by auto
  from inst have "iso_to_ns scenario_env (JStr (''2026-02-04T17:00:47'' @ ''Z''))
       = iso_to_ns scenario_env (JStr (''2026-02-04T17:00:47'' @ ''+00:00''))"
    by blast
  moreover from inst t0 float_mul_1969
  have "iso_to_ns scenario_env (JStr ''1969-12-25T18:05:43.774120Z'')
       = Inr (if (0::rat) \<le> - (2317805841237389 / 4294967296)
              then \<lfloor>- (8634499614080001 / 16) :: rat\<rfloor> else \<lceil>- (8634499614080001 / 16) :: rat\<rceil>)"
    by blast
  then have "iso_to_ns scenario_env (JStr ''1969-12-25T18:05:43.774120Z'')
       = Inr \<lceil>- (8634499614080001 / 16) :: rat\<rceil>"
    by simp
  ultimately show ?thesis using t1 t2 r a b t0 float_mul_1969 by simp
qed

text \<open>
  The claim as stated fails in three ways. Beyond that range the product of a whole
  number of seconds is no longer exact: the library gives 10413792002 and 10413792062
  epoch seconds for two whole-second timestamps of the year 2300 that are 60 seconds
  apart; neither product with \<open>10^9\<close> is a double, the first is rounded down and the
  second up, and the results differ by \<open>60_000_002_048\<close>. Before the epoch the result is
  not the floor of the product: for 1969-12-25T18:05:43.774120Z the product is
  \<open>-539656225880000.0625\<close>, whose floor is \<open>-539656225880001\<close>, and the result is
  \<open>-539656225880000\<close>. Within the range, two timestamps with microseconds that are 60
  seconds apart, one on each side of \<open>2^31\<close> seconds, give results that differ by
  \<open>59_999_999_744\<close>.
\<close>

theorem iso_to_ns_inexact_far_future:
  "fromisoformat_timestamp scenario_env ''2300-01-01T00:00:02+00:00'' = Inr (Fin 10413792002)
   \<and> fromisoformat_timestamp scenario_env ''2300-01-01T00:01:02+00:00'' = Inr (Fin 10413792062)
   \<and> iso_to_ns scenario_env (JStr ''2300-01-01T00:00:02Z'') = Inr 10413792001999998976
   \<and> iso_to_ns scenario_env (JStr ''2300-01-01T00:01:02Z'') = Inr 10413792062000001024
   \<and> (10413792001999998976 :: int) \<noteq> 10413792002 * 1000000000
   \<and> (10413792062000001024 :: int) - 10413792001999998976 \<noteq> 60000000000
   \<and> fromisoformat_timestamp scenario_env ''1969-12-25T18:05:43.774120+00:00''
       = Inr (Fin (- (2317805841237389 / 4294967296)))
   \<and> round_double (- (539656225880 / 1000000)) = Fin (- (2317805841237389 / 4294967296))
   \<and> float_mul (Fin (- (2317805841237389 / 4294967296))) (Fin 1000000000)
       = Fin (- (8634499614080001 / 16))
   \<and> \<lfloor>- (8634499614080001 / 16) :: rat\<rfloor> = - 539656225880001
   \<and> iso_to_ns scenario_env (JStr ''1969-12-25T18:05:43.774120Z'') = Inr (- 539656225880000)
   \<and> fromisoformat_timestamp scenario_env ''2038-01-19T03:13:38.000003+00:00''
       = Inr (Fin (9007199128911885 / 4194304))
   \<and> fromisoformat_timestamp scenario_env ''2038-01-19T03:14:38.000003+00:00''
       = Inr (Fin (2251799845142531 / 1048576))
   \<and> round_double (2147483618000003 / 1000000) = Fin (9007199128911885 / 4194304)
   \<and> round_double (2147483678000003 / 1000000) = Fin (2251799845142531 / 1048576)
   \<and> iso_to_ns scenario_env (JStr ''2038-01-19T03:13:38.000003Z'') = Inr 2147483618000003072
   \<and> iso_to_ns scenario_env (JStr ''2038-01-19T03:14:38.000003Z'') = Inr 2147483678000002816
   \<and> (2147483678000002816 :: int) - 2147483618000003072 \<noteq> 60000000000"
proof -
  note m1 = float_mul_2300_00_02 and m2 = float_mul_2300_01_02
  have a: "iso_to_ns scenario_env (JStr ''2300-01-01T00:00:02Z'') = Inr 10413792001999998976"
    by (simp add: iso_to_ns_def scenario_env_def m1 py_trunc_def)
  have b: "iso_to_ns scenario_env (JStr ''2300-01-01T00:01:02Z'') = Inr 10413792062000001024"
    by (simp add: iso_to_ns_def scenario_env_def m2 py_trunc_def)
  have f: "\<lfloor>- (8634499614080001 / 16) :: rat\<rfloor> = - 539656225880001"
  proof -
    have "\<lfloor>(of_int (- 8634499614080001) :: rat) / of_int 16\<rfloor> = - 8634499614080001 div 16"
      by (rule floor_divide_of_int_eq)
    then show ?thesis by simp
  qed
  have t: "fromisoformat_timestamp scenario_env ''2300-01-01T00:00:02+00:00'' = Inr (Fin 10413792002)"
    "fromisoformat_timestamp scenario_env ''2300-01-01T00:01:02+00:00'' = Inr (Fin 10413792062)"
    "fromisoformat_timestamp scenario_env ''1969-12-25T18:05:43.774120+00:00''
       = Inr (Fin (- (2317805841237389 / 4294967296)))"
    "fromisoformat_timestamp scenario_env ''2038-01-19T03:13:38.000003+00:00''
       = Inr (Fin (9007199128911885 / 4194304))"
    "fromisoformat_timestamp scenario_env ''2038-01-19T03:14:38.000003+00:00''
       = Inr (Fin (2251799845142531 / 1048576))"
    by (simp_all add: scenario_env_def)
  from a b f t timestamp_1969 float_mul_1969 iso_1969 timestamp_2038_13 timestamp_2038_14
    iso_2038_13 iso_2038_14
  show ?thesis by (simp only: simp_thms) simp
qed

section \<open>Properties of the normalizer\<close>

lemma SENSOR_NAME_MAP_get_Some:
  assumes "SENSOR_NAME_MAP_get sid = Inr (Some name)"
  shows "\<exists>k. int_key sid = Inr (Some k) \<and> map_of SENSOR_NAME_MAP k = Some name"
  using assms by (auto simp: SENSOR_NAME_MAP_get_def split: sum.splits option.splits)

lemma parse_entry_Some:
  assumes "parse_entry E data s = Inr (Some r)"
  shows "normalized_from E data s r"
proof -
  from assms obtain sid name v own ts f where
    sid: "dict_get s ''id'' (JInt (- 1)) = Inr sid"
    and name: "SENSOR_NAME_MAP_get sid = Inr (Some name)"
    and v: "dict_get s ''value'' JNull = Inr v" "v \<noteq> JNull"
    and own: "dict_get s ''last_reading_at'' JNull = Inr own"
    and ts: "(if truthy own then Inr own else dict_get data ''last_reading_at'' JNull) = Inr ts"
      "ts \<noteq> JNull"
    and f: "py_float E v = Inr f"
    and r: "r = \<lparr>sensor_id = sid, sensor_name = name, value_of = f, timestamp = ts\<rparr>"
    by (auto simp: parse_entry_def split: sum.splits option.splits if_splits)
  from SENSOR_NAME_MAP_get_Some[OF name] obtain k where
    "int_key sid = Inr (Some k)" "map_of SENSOR_NAME_MAP k = Some name"
    by blast
  with sid v own ts f r show ?thesis
    by (auto simp: normalized_from_def split: if_splits)
qed

lemma parse_loop_subseq:
  assumes "parse_loop E data acc items = Inr rs"
  shows "\<exists>entries new. rs = acc @ new \<and> subseq entries items
           \<and> list_all2 (normalized_from E data) entries new"
  using assms
proof (induction items arbitrary: acc)
  case Nil
  then show ?case by auto
next
  case (Cons s ss)
  show ?case
  proof (cases "parse_entry E data s")
    case (Inl e)
    with Cons.prems show ?thesis by simp
  next
    case (Inr skipped)
    show ?thesis
    proof (cases skipped)
      case None
      with Inr Cons.prems have "parse_loop E data acc ss = Inr rs" by simp
      from Cons.IH[OF this] obtain entries new where
        "rs = acc @ new" "subseq entries ss" "list_all2 (normalized_from E data) entries new"
        by blast
      then show ?thesis by (intro exI[of _ entries] exI[of _ new]) (simp add: list_emb_Cons)
    next
      case (Some r)
      with Inr Cons.prems have "parse_loop E data (acc @ [r]) ss = Inr rs" by simp
      from Cons.IH[OF this] obtain entries new where
        n: "rs = (acc @ [r]) @ new" "subseq entries ss"
          "list_all2 (normalized_from E data) entries new"
        by blast
      from Some Inr have "normalized_from E data s r" by (simp add: parse_entry_Some)
      with n show ?thesis
        by (intro exI[of _ "s # entries"] exI[of _ "r # new"]) simp
    qed
  qed
qed

text \<open>
  Claim C3. When \<open>parse_sensors\<close> returns, its readings come from a subsequence of the
  sensor entries, one reading per kept entry and in the entries' order, and each reading
  has the entry's id, which is a key of \<open>SENSOR_NAME_MAP\<close> mapped to the reading's name,
  the entry's non-null value converted to a float, and a timestamp that is not null.
\<close>

theorem parse_sensors_readings:
  assumes "parse_sensors E data = Inr readings"
  shows "(\<exists>d sensors_raw items entries.
            dict_get data ''data'' (JObj []) = Inr d
            \<and> dict_get d ''sensors'' (JArr []) = Inr sensors_raw
            \<and> py_iter sensors_raw = Inr items
            \<and> subseq entries items
            \<and> list_all2 (normalized_from E data) entries readings)
         \<and> (\<forall>r \<in> set readings.
               (\<exists>k. int_key (sensor_id r) = Inr (Some k) \<and> k \<in> fst ` set SENSOR_NAME_MAP
                  \<and> map_of SENSOR_NAME_MAP k = Some (sensor_name r))
               \<and> timestamp r \<noteq> JNull)"
proof -
  from assms obtain d sensors_raw items where
    d: "dict_get data ''data'' (JObj []) = Inr d"
    and sr: "dict_get d ''sensors'' (JArr []) = Inr sensors_raw"
    and it: "py_iter sensors_raw = Inr items"
    and loop: "parse_loop E data [] items = Inr readings"
    by (auto simp: parse_sensors_def split: sum.splits)
  from parse_loop_subseq[OF loop] obtain entries where
    sub: "subseq entries items" and all: "list_all2 (normalized_from E data) entries readings"
    by auto
  have "(\<exists>k. int_key (sensor_id r) = Inr (Some k) \<and> k \<in> fst ` set SENSOR_NAME_MAP
            \<and> map_of SENSOR_NAME_MAP k = Some (sensor_name r))
        \<and> timestamp r \<noteq> JNull" if "r \<in> set readings" for r
  proof -
    from that all obtain s where "normalized_from E data s r"
      by (auto simp: list_all2_conv_all_nth in_set_conv_nth)
    then obtain k where k: "int_key (sensor_id r) = Inr (Some k)"
      "map_of SENSOR_NAME_MAP k = Some (sensor_name r)" and t: "timestamp r \<noteq> JNull"
      by (auto simp: normalized_from_def split: sum.splits option.splits)
    from k(2) have "k \<in> fst ` set SENSOR_NAME_MAP"
      by (metis map_of_eq_None_iff option.distinct(1))
    with k t show ?thesis by blast
  qed
  with d sr it sub all show ?thesis by blast
qed

theorem parse_sensors_readings_witness:
  "parse_sensors scenario_env scenario_A = Inr [temperature_T1]
   \<and> int_key (sensor_id temperature_T1) = Inr (Some 55)
   \<and> 55 \<in> fst ` set SENSOR_NAME_MAP
   \<and> map_of SENSOR_NAME_MAP 55 = Some (sensor_name temperature_T1)
   \<and> timestamp temperature_T1 \<noteq> JNull"
proof -
  have p: "parse_sensors scenario_env scenario_A = Inr [temperature_T1]"
    by (rule parse_scenario_A)
  have i: "int_key (sensor_id temperature_T1) = Inr (Some 55)"
    by (simp add: temperature_T1_def)
  from parse_sensors_readings[OF p]
  have "\<exists>k. int_key (sensor_id temperature_T1) = Inr (Some k) \<and> k \<in> fst ` set SENSOR_NAME_MAP
          \<and> map_of SENSOR_NAME_MAP k = Some (sensor_name temperature_T1)"
    and "timestamp temperature_T1 \<noteq> JNull"
    by simp_all
  with p i show ?thesis by auto
qed

lemma parse_loop_raises:
  assumes "s \<in> set items" and "parse_entry E data s = Inl e"
  shows "\<exists>e'. parse_loop E data acc items = Inl e'"
  using assms
proof (induction items arbitrary: acc)
  case Nil
  then show ?case by simp
next
  case (Cons x xs)
  show ?case
  proof (cases "parse_entry E data x")
    case (Inl e')
    then show ?thesis by simp
  next
    case (Inr kept)
    with Cons.prems have "s \<in> set xs" by auto
    from Cons.IH[OF this Cons.prems(2)] Inr show ?thesis
      by (cases kept) simp_all
  qed
qed

lemma entry_56:
  "parse_entry E (device_doc t ss) (sensor_entry 56 (JFloat (Fin (281 / 4))) T1) = Inr (Some humidity_T1)"
  by (simp add: parse_entry_def sensor_entry_def dict_get_def SENSOR_NAME_MAP_get_def
      SENSOR_NAME_MAP_def py_float_def humidity_T1_def T1_def)

lemma entry_55_abc:
  "parse_entry scenario_env (device_doc t ss) (sensor_entry 55 (JStr ''abc'') T1) = Inl ValueError"
  by (simp add: parse_entry_def sensor_entry_def dict_get_def SENSOR_NAME_MAP_get_def
      SENSOR_NAME_MAP_def py_float_def T1_def scenario_env_def)

lemma parse_loop_first_raise:
  assumes "\<forall>x \<in> set pre. \<forall>ex. parse_entry E data x \<noteq> Inl ex"
    and "parse_entry E data s = Inl e"
  shows "parse_loop E data acc (pre @ s # post) = Inl e"
  using assms(1)
proof (induction pre arbitrary: acc)
  case Nil
  from assms(2) show ?case by simp
next
  case (Cons x xs)
  then have x: "\<forall>ex. parse_entry E data x \<noteq> Inl ex"
    and rest: "\<forall>y \<in> set xs. \<forall>ex. parse_entry E data y \<noteq> Inl ex"
    by simp_all
  from x obtain kept where k: "parse_entry E data x = Inr kept"
    by (cases "parse_entry E data x") auto
  from Cons.IH[OF rest] k show ?case
    by (cases kept) simp_all
qed

lemma py_float_raises:
  assumes "py_float E v = Inl e" and "v \<noteq> JNull"
  shows "(\<exists>str. v = JStr str) \<and> e = ValueError
         \<or> ((\<exists>xs. v = JArr xs) \<or> (\<exists>kvs. v = JObj kvs)) \<and> e = TypeError
         \<or> (\<exists>i. v = JInt i) \<and> e = OverflowError"
proof (cases v)
  case (JInt i)
  with assms(1) have "float_of_int i = Inl e" by (simp add: py_float_def)
  then have "e = OverflowError"
    by (auto simp: float_of_int_def split: pyfloat.splits)
  with JInt show ?thesis by simp
next
  case (JStr str)
  with assms(1) show ?thesis
    by (auto simp: py_float_def split: option.splits)
qed (use assms in \<open>auto simp: py_float_def\<close>)

text \<open>
  Claim C4, as the code has it. \<open>parse_sensors\<close> calls \<open>float(value)\<close> with no handler
  around it. \<open>float\<close> rejects a string that does not parse with \<open>ValueError\<close>, a list or
  object with \<open>TypeError\<close> and an integer beyond the doubles with \<open>OverflowError\<close>. When
  a catalog-listed entry with a non-null value and a resolvable timestamp has such a
  value, \<open>parse_sensors\<close> raises and returns no readings at all; the exception is that
  of \<open>float\<close> when no entry before this one raises. A cycle that fetches the payload and
  is not skipped as a duplicate raises the same exception as \<open>parse_sensors\<close>, calls the
  store client not at all and keeps the poll state; the main loop then adds 1 to
  \<open>consecutive_errors\<close> and waits \<open>_backoff_sleep\<close> of the new count.
\<close>

theorem unparsable_value_raises:
  assumes "dict_get data ''data'' (JObj []) = Inr d"
    and "dict_get d ''sensors'' (JArr []) = Inr sensors_raw"
    and "py_iter sensors_raw = Inr items"
    and "s \<in> set items"
    and "dict_get s ''id'' (JInt (- 1)) = Inr sid"
    and "SENSOR_NAME_MAP_get sid = Inr (Some name)"
    and "dict_get s ''value'' JNull = Inr v" and "v \<noteq> JNull"
    and "dict_get s ''last_reading_at'' JNull = Inr own"
    and "truthy own \<or> (\<exists>t. dict_get data ''last_reading_at'' JNull = Inr t \<and> t \<noteq> JNull)"
    and "py_float E v = Inl e"
  shows "((\<exists>str. v = JStr str) \<and> e = ValueError
          \<or> ((\<exists>xs. v = JArr xs) \<or> (\<exists>kvs. v = JObj kvs)) \<and> e = TypeError
          \<or> (\<exists>i. v = JInt i) \<and> e = OverflowError)
         \<and> (\<exists>e'. parse_sensors E data = Inl e'
               \<and> ((\<forall>x \<in> set (takeWhile (\<lambda>x. x \<noteq> s) items).
                      \<forall>ex. parse_entry E data x \<noteq> Inl ex) \<longrightarrow> e' = e)
               \<and> (\<forall>W st t s'. fetch_device_data W = Inr data
                     \<and> dict_get data ''last_reading_at'' JNull = Inr t
                     \<and> \<not> (truthy t \<and> py_eq t (last_reading_at st))
                     \<and> poll s' = st \<longrightarrow>
                     poll_once E W st = (Inl e', st, [])
                     \<and> poll (run_cycle E W s') = st
                     \<and> client_calls (run_cycle E W s') = client_calls s'
                     \<and> consecutive_errors (run_cycle E W s') = consecutive_errors s' + 1
                     \<and> waits (run_cycle E W s')
                         = waits s' @ [backoff_sleep (consecutive_errors s' + 1)]))"
proof
  from assms(11,8) show "(\<exists>str. v = JStr str) \<and> e = ValueError
          \<or> ((\<exists>xs. v = JArr xs) \<or> (\<exists>kvs. v = JObj kvs)) \<and> e = TypeError
          \<or> (\<exists>i. v = JInt i) \<and> e = OverflowError"
    by (rule py_float_raises)
next
  from assms(10) have own_ne: "truthy own \<Longrightarrow> own \<noteq> JNull" by auto
  have bad: "parse_entry E data s = Inl e"
  proof (cases "truthy own")
    case True
    with assms own_ne show ?thesis by (simp add: parse_entry_def)
  next
    case False
    with assms(10) obtain t where "dict_get data ''last_reading_at'' JNull = Inr t" "t \<noteq> JNull"
      by blast
    with False assms show ?thesis by (simp add: parse_entry_def)
  qed
  from parse_loop_raises[OF assms(4) this] obtain e' where
    loop: "parse_loop E data [] items = Inl e'" by blast
  with assms(1-3) have raised: "parse_sensors E data = Inl e'"
    by (simp add: parse_sensors_def)
  have first: "e' = e"
    if "\<forall>x \<in> set (takeWhile (\<lambda>x. x \<noteq> s) items). \<forall>ex. parse_entry E data x \<noteq> Inl ex"
  proof -
    from assms(4) have "dropWhile (\<lambda>x. x \<noteq> s) items \<noteq> []" by simp
    then obtain y post where dw: "dropWhile (\<lambda>x. x \<noteq> s) items = y # post"
      by (cases "dropWhile (\<lambda>x. x \<noteq> s) items") auto
    from hd_dropWhile[of "\<lambda>x. x \<noteq> s" items] \<open>dropWhile (\<lambda>x. x \<noteq> s) items \<noteq> []\<close> dw
    have "y = s" by simp
    with dw have "items = takeWhile (\<lambda>x. x \<noteq> s) items @ s # post"
      using takeWhile_dropWhile_id[of "\<lambda>x. x \<noteq> s" items] by simp
    with parse_loop_first_raise[OF that bad, of "[]" post] loop show ?thesis
      by simp
  qed
  have cycle: "poll_once E W st = (Inl e', st, [])
        \<and> poll (run_cycle E W s') = st
        \<and> client_calls (run_cycle E W s') = client_calls s'
        \<and> consecutive_errors (run_cycle E W s') = consecutive_errors s' + 1
        \<and> waits (run_cycle E W s') = waits s' @ [backoff_sleep (consecutive_errors s' + 1)]"
    if "fetch_device_data W = Inr data \<and> dict_get data ''last_reading_at'' JNull = Inr t
        \<and> \<not> (truthy t \<and> py_eq t (last_reading_at st)) \<and> poll s' = st"
    for W :: world and st t and s' :: loop_state
  proof -
    from that raised have p: "poll_once E W st = (Inl e', st, [])"
      by (auto simp: poll_once_def)
    with that show ?thesis
      by (auto simp: run_cycle_def)
  qed
  from raised first cycle
  show "\<exists>e'. parse_sensors E data = Inl e'
               \<and> ((\<forall>x \<in> set (takeWhile (\<lambda>x. x \<noteq> s) items).
                      \<forall>ex. parse_entry E data x \<noteq> Inl ex) \<longrightarrow> e' = e)
               \<and> (\<forall>W st t s'. fetch_device_data W = Inr data
                     \<and> dict_get data ''last_reading_at'' JNull = Inr t
                     \<and> \<not> (truthy t \<and> py_eq t (last_reading_at st))
                     \<and> poll s' = st \<longrightarrow>
                     poll_once E W st = (Inl e', st, [])
                     \<and> poll (run_cycle E W s') = st
                     \<and> client_calls (run_cycle E W s') = client_calls s'
                     \<and> consecutive_errors (run_cycle E W s') = consecutive_errors s' + 1
                     \<and> waits (run_cycle E W s')
                         = waits s' @ [backoff_sleep (consecutive_errors s' + 1)])"
    by blast
qed

theorem unparsable_value_raises_witness:
  "dict_get doc_unparsable_value ''data'' (JObj [])
     = Inr (JObj [(''sensors'', JArr [sensor_entry 56 (JFloat (Fin (281 / 4))) T1,
                                        sensor_entry 55 (JStr ''abc'') T1])])
   \<and> SENSOR_NAME_MAP_get (JInt 55) = Inr (Some ''temperature'')
   \<and> truthy (JStr T1)
   \<and> py_float scenario_env (JStr ''abc'') = Inl ValueError
   \<and> takeWhile (\<lambda>x. x \<noteq> sensor_entry 55 (JStr ''abc'') T1)
        [sensor_entry 56 (JFloat (Fin (281 / 4))) T1, sensor_entry 55 (JStr ''abc'') T1]
       = [sensor_entry 56 (JFloat (Fin (281 / 4))) T1]
   \<and> parse_entry scenario_env doc_unparsable_value (sensor_entry 56 (JFloat (Fin (281 / 4))) T1)
       = Inr (Some humidity_T1)
   \<and> parse_sensors scenario_env doc_unparsable_value = Inl ValueError"
proof -
  let ?good = "sensor_entry 56 (JFloat (Fin (281 / 4))) T1"
  let ?bad = "sensor_entry 55 (JStr ''abc'') T1"
  let ?items = "[?good, ?bad]"
  have d: "dict_get doc_unparsable_value ''data'' (JObj []) = Inr (JObj [(''sensors'', JArr ?items)])"
    by (simp add: doc_unparsable_value_def device_doc_def dict_get_def)
  have sr: "dict_get (JObj [(''sensors'', JArr ?items)]) ''sensors'' (JArr []) = Inr (JArr ?items)"
    by (simp add: dict_get_def)
  have it: "py_iter (JArr ?items) = Inr ?items" by (simp add: py_iter_def)
  have m: "?bad \<in> set ?items" by simp
  have sid: "dict_get ?bad ''id'' (JInt (- 1)) = Inr (JInt 55)"
    and v: "dict_get ?bad ''value'' JNull = Inr (JStr ''abc'')"
    and own: "dict_get ?bad ''last_reading_at'' JNull = Inr (JStr T1)"
    by (simp_all add: sensor_entry_def dict_get_def)
  have name: "SENSOR_NAME_MAP_get (JInt 55) = Inr (Some ''temperature'')"
    by (simp add: SENSOR_NAME_MAP_get_def SENSOR_NAME_MAP_def)
  have nn: "JStr ''abc'' \<noteq> JNull" by simp
  have t: "truthy (JStr T1) \<or> (\<exists>t. dict_get doc_unparsable_value ''last_reading_at'' JNull = Inr t
              \<and> t \<noteq> JNull)"
    by (simp add: T1_def)
  have f: "py_float scenario_env (JStr ''abc'') = Inl ValueError"
    by (simp add: py_float_def scenario_env_def)
  have tw: "takeWhile (\<lambda>x. x \<noteq> ?bad) ?items = [?good]"
    by (simp add: sensor_entry_def)
  have g: "parse_entry scenario_env doc_unparsable_value ?good = Inr (Some humidity_T1)"
    by (simp add: doc_unparsable_value_def entry_56)
  from unparsable_value_raises[OF d sr it m sid name v nn own t f]
  obtain e' where "parse_sensors scenario_env doc_unparsable_value = Inl e'"
    and "(\<forall>x \<in> set (takeWhile (\<lambda>x. x \<noteq> ?bad) ?items).
            \<forall>ex. parse_entry scenario_env doc_unparsable_value x \<noteq> Inl ex) \<longrightarrow> e' = ValueError"
    by blast
  with tw g have "parse_sensors scenario_env doc_unparsable_value = Inl ValueError"
    by simp
  with d name f tw g show ?thesis by (simp add: T1_def)
qed

text \<open>
  The claim as stated fails: with a valid humidity entry followed by a temperature entry
  whose value is the string \<open>"abc"\<close>, \<open>parse_sensors\<close> raises \<open>ValueError\<close> instead of
  returning the humidity reading, and the cycle ends as a failure with a backoff wait.
\<close>

theorem unparsable_value_aborts_batch:
  "parse_entry scenario_env doc_unparsable_value (sensor_entry 56 (JFloat (Fin (281 / 4))) T1)
     = Inr (Some humidity_T1)
   \<and> parse_sensors scenario_env doc_unparsable_value = Inl ValueError
   \<and> poll_once scenario_env (world_of (Inr doc_unparsable_value) store_up) initial_state
       = (Inl ValueError, initial_state, [])
   \<and> consecutive_errors
        (run scenario_env [world_of (Inr doc_unparsable_value) store_up] initial_state) = 1
   \<and> waits (run scenario_env [world_of (Inr doc_unparsable_value) store_up] initial_state) = [2]"
proof -
  have ps: "parse_sensors scenario_env doc_unparsable_value = Inl ValueError"
    by (simp add: doc_unparsable_value_def parse_sensors_device_doc entry_56 entry_55_abc)
  have top: "dict_get doc_unparsable_value ''last_reading_at'' JNull = Inr (JStr T1)"
    by (simp add: doc_unparsable_value_def top_device_doc)
  have p: "poll_once scenario_env (world_of (Inr doc_unparsable_value) store_up) initial_state
       = (Inl ValueError, initial_state, [])"
    by (simp add: poll_once_def fetch_world_of top ps initial_state_def py_eq.simps)
  have r: "run scenario_env [world_of (Inr doc_unparsable_value) store_up] initial_state
       = \<lparr>poll = initial_state, consecutive_errors = 1, waits = [2], client_calls = []\<rparr>"
    using p by (simp add: run_def run_cycle_def world_of_def backoff_sleep_def)
  have e: "parse_entry scenario_env doc_unparsable_value
             (sensor_entry 56 (JFloat (Fin (281 / 4))) T1) = Inr (Some humidity_T1)"
    by (simp add: doc_unparsable_value_def entry_56)
  from e ps p r show ?thesis by simp
qed

lemma dict_get_JObj:
  "dict_get (JObj kvs) k dflt = Inr (case map_of kvs k of None \<Rightarrow> dflt | Some v \<Rightarrow> v)"
  by (simp add: dict_get_def)

lemma dict_get_Inr:
  assumes "dict_get d k dflt = Inr v"
  shows "\<exists>kvs. d = JObj kvs"
  using assms by (cases d) (simp_all add: dict_get_def)

lemma truthy_not_null: "truthy x \<Longrightarrow> x \<noteq> JNull"
  by auto

lemma entry_ok_iff:
  assumes "dict_get data ''last_reading_at'' JNull = Inr tstamp"
  shows "entry_ok E tstamp s \<longleftrightarrow> (\<exists>kept. parse_entry E data s = Inr kept)"
proof (cases "\<exists>kvs. s = JObj kvs")
  case False
  then have "dict_get s ''id'' (JInt (- 1)) = Inl AttributeError"
    by (cases s) (simp_all add: dict_get_def)
  then have "parse_entry E data s = Inl AttributeError"
    by (simp add: parse_entry_def)
  moreover from False have "\<not> entry_ok E tstamp s"
    by (cases s) (simp_all add: entry_ok_def)
  ultimately show ?thesis by simp
next
  case True
  then obtain kvs where s: "s = JObj kvs" by blast
  define sid where "sid = (case map_of kvs ''id'' of None \<Rightarrow> JInt (- 1) | Some i \<Rightarrow> i)"
  define v where "v = (case map_of kvs ''value'' of None \<Rightarrow> JNull | Some x \<Rightarrow> x)"
  define own where "own = (case map_of kvs ''last_reading_at'' of None \<Rightarrow> JNull | Some x \<Rightarrow> x)"
  have g: "dict_get s ''id'' (JInt (- 1)) = Inr sid" "dict_get s ''value'' JNull = Inr v"
    "dict_get s ''last_reading_at'' JNull = Inr own"
    by (simp_all add: s dict_get_JObj sid_def v_def own_def)
  have ok: "entry_ok E tstamp s =
      (case SENSOR_NAME_MAP_get sid of
         Inl e \<Rightarrow> False
       | Inr None \<Rightarrow> True
       | Inr (Some name) \<Rightarrow>
           v = JNull \<or> (\<not> truthy own \<and> tstamp = JNull)
           \<or> (case py_float E v of Inr f \<Rightarrow> True | Inl e \<Rightarrow> False))"
    unfolding entry_ok_def s Let_def sid_def v_def own_def by simp
  show ?thesis
  proof (cases "SENSOR_NAME_MAP_get sid")
    case (Inl e)
    with g ok show ?thesis by (simp add: parse_entry_def)
  next
    case (Inr listed)
    show ?thesis
    proof (cases listed)
      case None
      with Inr g ok show ?thesis by (simp add: parse_entry_def)
    next
      case (Some name)
      show ?thesis
      proof (cases "v = JNull \<or> (\<not> truthy own \<and> tstamp = JNull)")
        case True
        with Some Inr g ok assms show ?thesis
          by (auto simp: parse_entry_def)
      next
        case False
        then have ts: "(if truthy own then own else tstamp) \<noteq> JNull" and v: "v \<noteq> JNull"
          by (auto dest: truthy_not_null)
        from Some Inr g assms v ts
        have "parse_entry E data s =
                (case py_float E v of
                   Inl e \<Rightarrow> Inl e
                 | Inr f \<Rightarrow> Inr (Some \<lparr>sensor_id = sid, sensor_name = name, value_of = f,
                     timestamp = (if truthy own then own else tstamp)\<rparr>))"
          by (auto simp: parse_entry_def)
        with False Some Inr ok show ?thesis
          by (cases "py_float E v") simp_all
      qed
    qed
  qed
qed

lemma parse_loop_ok:
  assumes "list_all (entry_ok E tstamp) items"
    and "dict_get data ''last_reading_at'' JNull = Inr tstamp"
  shows "\<exists>rs. parse_loop E data acc items = Inr rs \<and> length rs \<le> length acc + length items"
  using assms(1)
proof (induction items arbitrary: acc)
  case Nil
  show ?case by simp
next
  case (Cons s ss)
  then have "entry_ok E tstamp s" and rest: "list_all (entry_ok E tstamp) ss" by simp_all
  with entry_ok_iff[OF assms(2)] obtain kept where
    k: "parse_entry E data s = Inr kept" by blast
  show ?case
  proof (cases kept)
    case None
    from Cons.IH[OF rest, of acc] k None show ?thesis by auto
  next
    case (Some r)
    from Cons.IH[OF rest, of "acc @ [r]"] k Some show ?thesis by auto
  qed
qed

lemma parse_loop_returns_entries_ok:
  assumes "parse_loop E data acc items = Inr rs"
    and "dict_get data ''last_reading_at'' JNull = Inr tstamp"
  shows "list_all (entry_ok E tstamp) items"
proof -
  have "entry_ok E tstamp s" if "s \<in> set items" for s
  proof (cases "parse_entry E data s")
    case (Inl e)
    from parse_loop_raises[OF that Inl, of acc] assms(1) show ?thesis by simp
  next
    case (Inr kept)
    with entry_ok_iff[OF assms(2)] show ?thesis by blast
  qed
  then show ?thesis by (simp add: list_all_iff)
qed

lemma top_timestamp_get:
  "dict_get (JObj kvs) ''last_reading_at'' JNull = Inr (top_timestamp (JObj kvs))"
  by (simp add: dict_get_JObj top_timestamp_def)

lemma parse_sensors_returns_payload_ok:
  assumes "parse_sensors E data = Inr rs"
  shows "payload_ok E data"
proof -
  from assms obtain d sr items where
    d: "dict_get data ''data'' (JObj []) = Inr d"
    and sr: "dict_get d ''sensors'' (JArr []) = Inr sr"
    and it: "py_iter sr = Inr items"
    and loop: "parse_loop E data [] items = Inr rs"
    by (auto simp: parse_sensors_def split: sum.splits)
  from dict_get_Inr[OF d] obtain kvs where data: "data = JObj kvs" by blast
  from dict_get_Inr[OF sr] obtain dkvs where dd: "d = JObj dkvs" by blast
  have tp: "dict_get data ''last_reading_at'' JNull = Inr (top_timestamp data)"
    unfolding data by (rule top_timestamp_get)
  from parse_loop_returns_entries_ok[OF loop tp]
  have ok: "list_all (entry_ok E (top_timestamp data)) items" .
  have not_str: "\<not> entry_ok E (top_timestamp data) (JStr x)" for x
    by (simp add: entry_ok_def)
  from d data dd have dm: "(case map_of kvs ''data'' of None \<Rightarrow> JObj [] | Some x \<Rightarrow> x) = JObj dkvs"
    by (simp add: dict_get_JObj)
  from sr dd have sm: "(case map_of dkvs ''sensors'' of None \<Rightarrow> JArr [] | Some x \<Rightarrow> x) = sr"
    by (simp add: dict_get_JObj)
  have "sensor_entries data = Some items"
  proof (cases sr)
    case (JArr ss)
    with it have "items = ss" by (simp add: py_iter_def)
    with JArr dm sm data show ?thesis
      by (auto simp: sensor_entries_def split: option.splits json.splits)
  next
    case (JStr str)
    with it have items: "items = map (\<lambda>c. JStr [c]) str" by (simp add: py_iter_def)
    with ok not_str have "str = []" by (cases str) simp_all
    with JStr items dm sm data show ?thesis
      by (auto simp: sensor_entries_def split: option.splits json.splits)
  next
    case (JObj skvs)
    with it have items: "items = map (\<lambda>kv. JStr (fst kv)) skvs" by (simp add: py_iter_def)
    with ok not_str have "skvs = []" by (cases skvs) simp_all
    with JObj items dm sm data show ?thesis
      by (auto simp: sensor_entries_def split: option.splits json.splits)
  qed (use it in \<open>simp_all add: py_iter_def\<close>)
  with ok show ?thesis by (simp add: payload_ok_def)
qed

text \<open>
  Claim C8, as the code has it. \<open>parse_sensors\<close> supplies defaults for absent keys only.
  It returns a list, with at most one reading per sensor entry and empty when \<open>data\<close> or
  \<open>sensors\<close> is absent, exactly on the documents of this shape: the document is an
  object; its \<open>data\<close> is absent or an object; the \<open>sensors\<close> of that are absent, a list,
  or an empty string or object; every entry is an object whose id is not a list or an
  object and which, when the catalog lists the id, has a value that is absent or null, or
  no resolvable timestamp, or a value that \<open>float\<close> accepts. On every other document it
  raises.
\<close>

theorem parse_sensors_returns_on_shaped_payload:
  "(payload_ok E data \<longrightarrow>
      (\<exists>entries readings.
         sensor_entries data = Some entries
         \<and> parse_sensors E data = Inr readings
         \<and> length readings \<le> length entries
         \<and> (entries = [] \<longrightarrow> readings = [])))
   \<and> (\<not> payload_ok E data \<longrightarrow> (\<exists>e. parse_sensors E data = Inl e))"
proof (intro conjI impI)
  assume "payload_ok E data"
  then obtain entries where se: "sensor_entries data = Some entries"
    and ok: "list_all (entry_ok E (top_timestamp data)) entries"
    by (auto simp: payload_ok_def split: option.splits)
  from se obtain kvs where data: "data = JObj kvs"
    by (auto simp: sensor_entries_def split: json.splits)
  have tp: "dict_get data ''last_reading_at'' JNull = Inr (top_timestamp data)"
    unfolding data by (rule top_timestamp_get)
  from se data have "\<exists>d sr. dict_get data ''data'' (JObj []) = Inr d
        \<and> dict_get d ''sensors'' (JArr []) = Inr sr \<and> py_iter sr = Inr entries"
    by (auto simp: sensor_entries_def dict_get_def py_iter_def
        split: option.splits json.splits if_splits)
  then have ps: "parse_sensors E data = parse_loop E data [] entries"
    by (auto simp: parse_sensors_def)
  from parse_loop_ok[OF ok tp, of "[]"] obtain rs where
    "parse_loop E data [] entries = Inr rs" "length rs \<le> length entries"
    by auto
  with ps se show "\<exists>entries readings.
         sensor_entries data = Some entries
         \<and> parse_sensors E data = Inr readings
         \<and> length readings \<le> length entries
         \<and> (entries = [] \<longrightarrow> readings = [])"
    by auto
next
  assume bad: "\<not> payload_ok E data"
  show "\<exists>e. parse_sensors E data = Inl e"
  proof (cases "parse_sensors E data")
    case (Inl e)
    then show ?thesis by blast
  next
    case (Inr rs)
    from parse_sensors_returns_payload_ok[OF this] bad show ?thesis by simp
  qed
qed

theorem parse_sensors_returns_on_shaped_payload_witness:
  "payload_ok scenario_env scenario_A
   \<and> sensor_entries scenario_A
       = Some [sensor_entry 55 (JFloat (Fin (43 / 2))) T1, sensor_entry 9999 (JFloat (Fin 1)) T1,
               sensor_entry 56 JNull T1]
   \<and> parse_sensors scenario_env scenario_A = Inr [temperature_T1]
   \<and> payload_ok scenario_env (JObj [])
   \<and> parse_sensors scenario_env (JObj []) = Inr []
   \<and> \<not> payload_ok scenario_env doc_data_null
   \<and> (\<exists>e. parse_sensors scenario_env doc_data_null = Inl e)"
proof -
  have ok: "payload_ok scenario_env scenario_A"
    by (simp add: payload_ok_def sensor_entries_def scenario_A_def device_doc_def
        entry_ok_def sensor_entry_def py_float_def SENSOR_NAME_MAP_get_def SENSOR_NAME_MAP_def)
  have se: "sensor_entries scenario_A
       = Some [sensor_entry 55 (JFloat (Fin (43 / 2))) T1, sensor_entry 9999 (JFloat (Fin 1)) T1,
               sensor_entry 56 JNull T1]"
    by (simp add: sensor_entries_def scenario_A_def device_doc_def)
  have ok0: "payload_ok scenario_env (JObj [])"
    by (simp add: payload_ok_def sensor_entries_def)
  have se0: "sensor_entries (JObj []) = Some []"
    by (simp add: sensor_entries_def)
  have bad: "\<not> payload_ok scenario_env doc_data_null"
    by (simp add: payload_ok_def sensor_entries_def doc_data_null_def)
  from parse_sensors_returns_on_shaped_payload[of scenario_env "JObj []"] ok0 se0
  have "parse_sensors scenario_env (JObj []) = Inr []" by auto
  moreover from parse_sensors_returns_on_shaped_payload[of scenario_env scenario_A] ok
  have "\<exists>readings. parse_sensors scenario_env scenario_A = Inr readings" by blast
  moreover from parse_sensors_returns_on_shaped_payload[of scenario_env doc_data_null] bad
  have "\<exists>e. parse_sensors scenario_env doc_data_null = Inl e" by blast
  ultimately show ?thesis using ok se ok0 bad parse_scenario_A by simp
qed

text \<open>
  The claim as stated fails on malformed structure: a null \<open>data\<close>, a null \<open>sensors\<close>
  and a sensor entry that is a number each make \<open>parse_sensors\<close> raise.
\<close>

theorem parse_sensors_raises_on_malformed:
  "parse_sensors scenario_env doc_data_null = Inl AttributeError
   \<and> parse_sensors scenario_env doc_sensors_null = Inl TypeError
   \<and> parse_sensors scenario_env doc_entry_not_object = Inl AttributeError"
  by (simp add: parse_sensors_def doc_data_null_def doc_sensors_null_def
      doc_entry_not_object_def device_doc_def dict_get_def py_iter_def parse_entry_def)

section \<open>Properties of the poll cycle\<close>

lemma write_to_influxdb_calls:
  assumes "write_to_influxdb E W readings device_id = (res, calls)"
    and "Write bucket org record \<in> set calls"
  shows "calls = [WriteApi, Write bucket org record]
         \<and> res = (case store_write W bucket org record of
                    Some e \<Rightarrow> Inl e | None \<Rightarrow> Inr (length readings))"
proof (cases "readings = []")
  case True
  with assms show ?thesis by (simp add: write_to_influxdb_def)
next
  case False
  show ?thesis
  proof (cases "lines_loop E device_id [] readings")
    case (Inl e)
    with assms False show ?thesis by (auto simp: write_to_influxdb_def)
  next
    case (Inr lines)
    have len: "length ls' = length ls + length rs"
      if "lines_loop E device_id ls rs = Inr ls'" for ls ls' rs
      using that by (induction rs arbitrary: ls) (auto split: sum.splits)
    from len[OF Inr] have "length lines = length readings" by simp
    with assms False Inr show ?thesis
      by (auto simp: write_to_influxdb_def Let_def split: option.splits)
  qed
qed


lemma poll_once_calls:
  assumes "poll_once E W st = (res, st', calls)" and "c \<in> set calls"
  shows "\<exists>data readings wres.
           fetch_device_data W = Inr data \<and> parse_sensors E data = Inr readings
           \<and> write_to_influxdb E W readings (SCK_DEVICE_ID E) = (wres, calls)
           \<and> (case wres of Inl e \<Rightarrow> res = Inl e \<and> st' = st
                | Inr n \<Rightarrow> \<exists>l. res = Inr l)"
  using assms
  by (auto simp: poll_once_def split: sum.splits if_splits prod.splits)

text \<open>
  Claim C10. When the store answers the cycle's write call with an exception, the cycle
  raises that exception and \<open>_last_reading_at\<close>, \<open>_last_poll_ts\<close> and \<open>_polls_total\<close>
  keep the values they had before the cycle; a following cycle therefore runs exactly as
  it would have run had the failed cycle never happened.
\<close>

theorem write_failure_leaves_state:
  assumes "poll_once E W st = (res, st', calls)"
    and "Write bucket org record \<in> set calls"
    and "store_write W bucket org record = Some e"
  shows "res = Inl e \<and> st' = st
         \<and> last_reading_at st' = last_reading_at st
         \<and> last_poll_ts st' = last_poll_ts st
         \<and> polls_total st' = polls_total st
         \<and> poll_once E W' st' = poll_once E W' st"
proof -
  from poll_once_calls[OF assms(1,2)] obtain data readings wres where
    w: "write_to_influxdb E W readings (SCK_DEVICE_ID E) = (wres, calls)"
    and r: "case wres of Inl e \<Rightarrow> res = Inl e \<and> st' = st | Inr n \<Rightarrow> \<exists>l. res = Inr l"
    by blast
  from write_to_influxdb_calls[OF w assms(2)] assms(3) have "wres = Inl e"
    by simp
  with r show ?thesis by simp
qed

theorem write_failure_leaves_state_witness:
  "poll_once scenario_env (world_of (Inr scenario_A) store_down) initial_state
     = (Inl (OtherException ''ApiException''), initial_state,
        [WriteApi, Write ''sck_data'' ''sck'' line_T1])
   \<and> store_write (world_of (Inr scenario_A) store_down) ''sck_data'' ''sck'' line_T1
       = Some (OtherException ''ApiException'')
   \<and> polls_total initial_state = 0"
proof -
  have p: "poll_once scenario_env (world_of (Inr scenario_A) store_down) initial_state
     = (Inl (OtherException ''ApiException''), initial_state,
        [WriteApi, Write ''sck_data'' ''sck'' line_T1])"
    by (simp add: poll_once_def fetch_world_of top_scenario_A parse_scenario_A
        write_temperature_T1 device_id_scenario store_down_def initial_state_def py_eq.simps)
  have s: "store_write (world_of (Inr scenario_A) store_down) ''sck_data'' ''sck'' line_T1
       = Some (OtherException ''ApiException'')"
    by (simp add: world_of_def store_down_def)
  have "Write ''sck_data'' ''sck'' line_T1 \<in> set [WriteApi, Write ''sck_data'' ''sck'' line_T1]"
    by simp
  from write_failure_leaves_state[OF p this s] p s show ?thesis
    by (simp add: initial_state_def)
qed

text \<open>
  Claim C7. For the empty list of readings \<open>write_to_influxdb\<close> returns 0 and makes no
  call on the client: neither \<open>write_api\<close> nor \<open>write\<close>.
\<close>

theorem write_empty_batch:
  "write_to_influxdb E W [] device_id = (Inr 0, [])"
  by (simp add: write_to_influxdb_def)

lemma poll_once_skip:
  assumes "fetch_device_data W = Inr data"
    and "dict_get data ''last_reading_at'' JNull = Inr t"
    and "truthy t" and "py_eq t (last_reading_at st)"
  shows "poll_once E W st = (Inr (SkippingDuplicate t), st, [])"
  using assms by (simp add: poll_once_def)

lemma poll_once_written:
  assumes "poll_once E W st = (Inr (Written n t k), st', calls)"
  shows "last_reading_at st' = t \<and> polls_total st' = polls_total st + 1
         \<and> last_poll_ts st' = Some (now_isoformat W)
         \<and> (\<exists>record. calls = [WriteApi, Write (INFLUXDB_BUCKET E) (INFLUXDB_ORG E) record])
         \<and> (\<exists>data. fetch_device_data W = Inr data
                \<and> dict_get data ''last_reading_at'' JNull = Inr t)
         \<and> \<not> (truthy t \<and> py_eq t (last_reading_at st))"
  using assms
  by (auto simp: poll_once_def write_to_influxdb_def Let_def
      split: sum.splits if_splits prod.splits option.splits)


text \<open>
  Claim C1, as the code has it. The guard of the duplicate check is
  \<open>device_reading_at and device_reading_at == _last_reading_at\<close>: the top-level timestamp
  must be truthy (for a string: non-empty), not merely non-null. For a truthy timestamp
  that equals the stored one the cycle ends at the check: it returns normally, makes no
  call on the store client and leaves the three state variables as they were. So after a
  cycle that wrote for a truthy timestamp, a cycle that fetches an equal timestamp writes
  nothing: the two cycles together issue exactly one store write and \<open>_polls_total\<close> has
  grown by one.
\<close>

theorem duplicate_cycle_is_skipped:
  assumes "fetch_device_data W = Inr data"
    and "dict_get data ''last_reading_at'' JNull = Inr t"
    and "truthy t"
  shows "(py_eq t (last_reading_at st) \<longrightarrow>
            poll_once E W st = (Inr (SkippingDuplicate t), st, []))
         \<and> (\<forall>W0 st0 n t0 k calls0.
               poll_once E W0 st0 = (Inr (Written n t0 k), st, calls0) \<and> py_eq t t0 \<longrightarrow>
               (\<exists>calls1. poll_once E W st = (Inr (SkippingDuplicate t), st, calls1)
                  \<and> length (filter is_write (calls0 @ calls1)) = 1)
               \<and> polls_total st = polls_total st0 + 1)"
proof (intro conjI impI allI)
  assume "py_eq t (last_reading_at st)"
  with assms show "poll_once E W st = (Inr (SkippingDuplicate t), st, [])"
    by (rule poll_once_skip)
next
  fix W0 st0 n t0 k calls0
  assume a: "poll_once E W0 st0 = (Inr (Written n t0 k), st, calls0) \<and> py_eq t t0"
  then have w: "poll_once E W0 st0 = (Inr (Written n t0 k), st, calls0)" and eq: "py_eq t t0"
    by simp_all
  from poll_once_written[OF w] have l: "last_reading_at st = t0"
    and p: "polls_total st = polls_total st0 + 1"
    and c: "\<exists>record. calls0 = [WriteApi, Write (INFLUXDB_BUCKET E) (INFLUXDB_ORG E) record]"
    by simp_all
  from eq l have "py_eq t (last_reading_at st)" by simp
  with assms have "poll_once E W st = (Inr (SkippingDuplicate t), st, [])"
    by (rule poll_once_skip)
  moreover from c have "length (filter is_write (calls0 @ [])) = 1" by auto
  ultimately show "\<exists>calls1. poll_once E W st = (Inr (SkippingDuplicate t), st, calls1)
      \<and> length (filter is_write (calls0 @ calls1)) = 1"
    by blast
  from p show "polls_total st = polls_total st0 + 1" .
qed

theorem duplicate_cycle_is_skipped_witness:
  "fetch_device_data (world_of (Inr scenario_A) store_up) = Inr scenario_A
   \<and> dict_get scenario_A ''last_reading_at'' JNull = Inr (JStr T1)
   \<and> truthy (JStr T1)
   \<and> py_eq (JStr T1) (last_reading_at (polled 1 (JStr T1)))
   \<and> poll_once scenario_env (world_of (Inr scenario_A) store_up) initial_state
       = (Inr (Written 1 (JStr T1) 1), polled 1 (JStr T1),
          [WriteApi, Write ''sck_data'' ''sck'' line_T1])
   \<and> poll_once scenario_env (world_of (Inr scenario_A) store_up) (polled 1 (JStr T1))
       = (Inr (SkippingDuplicate (JStr T1)), polled 1 (JStr T1), [])
   \<and> polls_total (polled 1 (JStr T1)) = polls_total initial_state + 1"
proof -
  have f: "fetch_device_data (world_of (Inr scenario_A) store_up) = Inr scenario_A"
    by (rule fetch_world_of)
  have t: "truthy (JStr T1)" by (simp add: T1_def)
  have e: "py_eq (JStr T1) (JStr T1)" by (simp add: py_eq.simps)
  have l: "last_reading_at (polled 1 (JStr T1)) = JStr T1" by (simp add: polled_def)
  have "\<not> py_eq (JStr T1) (last_reading_at initial_state)"
    by (simp add: initial_state_def py_eq.simps)
  from poll_scenario_A_up[OF this]
  have w: "poll_once scenario_env (world_of (Inr scenario_A) store_up) initial_state
       = (Inr (Written 1 (JStr T1) 1), polled 1 (JStr T1),
          [WriteApi, Write ''sck_data'' ''sck'' line_T1])"
    by (simp add: initial_state_def polled_def)
  note inst = duplicate_cycle_is_skipped[OF f top_scenario_A t, of "polled 1 (JStr T1)" scenario_env]
  from inst e l
  have s: "poll_once scenario_env (world_of (Inr scenario_A) store_up) (polled 1 (JStr T1))
       = (Inr (SkippingDuplicate (JStr T1)), polled 1 (JStr T1), [])"
    by simp
  from inst w e
  have "polls_total (polled 1 (JStr T1)) = polls_total initial_state + 1"
    by blast
  with s have "poll_once scenario_env (world_of (Inr scenario_A) store_up) (polled 1 (JStr T1))
       = (Inr (SkippingDuplicate (JStr T1)), polled 1 (JStr T1), [])
     \<and> polls_total (polled 1 (JStr T1)) = polls_total initial_state + 1"
    by simp
  with f top_scenario_A t e l w show ?thesis by simp
qed

text \<open>
  The claim as stated, with "non-null" in place of "truthy", fails for the empty string:
  a document whose top-level \<open>last_reading_at\<close> is \<open>""\<close> (its sensor carrying its own
  timestamp) is written on every cycle, although the stored timestamp is non-null and
  equal to the fetched one. Two cycles from the initial state write twice.
\<close>

theorem non_null_duplicate_written_again:
  "dict_get doc_blank_timestamp ''last_reading_at'' JNull = Inr (JStr [])
   \<and> JStr [] \<noteq> JNull
   \<and> py_eq (JStr []) (last_reading_at (polled 1 (JStr [])))
   \<and> poll_once scenario_env (world_of (Inr doc_blank_timestamp) store_up) initial_state
       = (Inr (Written 1 (JStr []) 1), polled 1 (JStr []),
          [WriteApi, Write ''sck_data'' ''sck'' line_T1])
   \<and> poll_once scenario_env (world_of (Inr doc_blank_timestamp) store_up) (polled 1 (JStr []))
       = (Inr (Written 1 (JStr []) 2), polled 2 (JStr []),
          [WriteApi, Write ''sck_data'' ''sck'' line_T1])"
proof -
  have top: "dict_get doc_blank_timestamp ''last_reading_at'' JNull = Inr (JStr [])"
    by (simp add: doc_blank_timestamp_def top_device_doc)
  have ps: "parse_sensors scenario_env doc_blank_timestamp = Inr [temperature_T1]"
    by (simp add: doc_blank_timestamp_def parse_sensors_device_doc entry_55)
  have "poll_once scenario_env (world_of (Inr doc_blank_timestamp) store_up) st
       = (Inr (Written 1 (JStr []) (polls_total st + 1)),
          st\<lparr>last_reading_at := JStr [],
             last_poll_ts := Some ''2026-02-04T17:02:00.000000+00:00'',
             polls_total := polls_total st + 1\<rparr>,
          [WriteApi, Write ''sck_data'' ''sck'' line_T1])" for st
    by (simp add: poll_once_def fetch_world_of now_world_of top ps
        write_temperature_T1 device_id_scenario store_up_def)
  from this[of initial_state] this[of "polled 1 (JStr [])"] top show ?thesis
    by (simp add: initial_state_def polled_def py_eq.simps)
qed







section \<open>Properties of the main loop\<close>

lemma run_cycle_ok:
  assumes "poll_once E W (poll s) = (Inr l, st, calls)"
  shows "run_cycle E W s
         = s\<lparr>poll := st, consecutive_errors := 0,
             waits := waits s @ [POLL_INTERVAL_SECONDS E],
             client_calls := client_calls s @ calls\<rparr>"
  using assms by (simp add: run_cycle_def)

lemma run_cycle_raise:
  assumes "poll_once E W (poll s) = (Inl e, st, calls)"
  shows "run_cycle E W s
         = s\<lparr>poll := st, consecutive_errors := consecutive_errors s + 1,
             waits := waits s @ [backoff_sleep (consecutive_errors s + 1)],
             client_calls := client_calls s @ calls\<rparr>"
  using assms by (simp add: run_cycle_def)

lemma poll_once_fetch_raises:
  "fetch_device_data W = Inl e \<Longrightarrow> poll_once E W st = (Inl e, st, [])"
  by (simp add: poll_once_def)

lemma run_cycle_fetch_raises:
  assumes "fetch_device_data W = Inl e"
  shows "run_cycle E W s
         = s\<lparr>consecutive_errors := consecutive_errors s + 1,
             waits := waits s @ [backoff_sleep (consecutive_errors s + 1)]\<rparr>"
  using run_cycle_raise[OF poll_once_fetch_raises[OF assms], of E s] by simp

text \<open>
  Claim C9. A cycle in which \<open>poll_once\<close> returns sets \<open>consecutive_errors\<close> to 0 and
  waits for the poll interval. A cycle in which it raises, whatever the exception
  (\<open>requests.RequestException\<close> or any other), adds exactly 1 and waits
  \<open>_backoff_sleep\<close> of the new count. Three fetch failures in a row from a fresh loop
  wait 2, 4 and 8 seconds and leave the counter at 3; a cycle that then succeeds sets
  it back to 0.
\<close>

theorem consecutive_errors_backoff:
  "(\<forall>l st calls. poll_once E W (poll s) = (Inr l, st, calls) \<longrightarrow>
      consecutive_errors (run_cycle E W s) = 0
      \<and> waits (run_cycle E W s) = waits s @ [POLL_INTERVAL_SECONDS E])
   \<and> (\<forall>e st calls. poll_once E W (poll s) = (Inl e, st, calls) \<longrightarrow>
      consecutive_errors (run_cycle E W s) = consecutive_errors s + 1
      \<and> waits (run_cycle E W s) = waits s @ [backoff_sleep (consecutive_errors s + 1)])
   \<and> (\<forall>W1 W2 W3 e1 e2 e3.
        fetch_device_data W1 = Inl e1 \<and> fetch_device_data W2 = Inl e2
        \<and> fetch_device_data W3 = Inl e3
        \<and> \<not> shutdown_is_set W1 \<and> \<not> shutdown_is_set W2 \<and> \<not> shutdown_is_set W3 \<longrightarrow>
        waits (run E [W1, W2, W3] st0) = [2, 4, 8]
        \<and> consecutive_errors (run E [W1, W2, W3] st0) = 3
        \<and> poll (run E [W1, W2, W3] st0) = st0
        \<and> (\<forall>W4 l st calls.
              \<not> shutdown_is_set W4 \<and> poll_once E W4 st0 = (Inr l, st, calls) \<longrightarrow>
              consecutive_errors (run E [W1, W2, W3, W4] st0) = 0
              \<and> waits (run E [W1, W2, W3, W4] st0) = [2, 4, 8, POLL_INTERVAL_SECONDS E]))"
proof (intro conjI allI impI)
  fix l st calls
  assume "poll_once E W (poll s) = (Inr l, st, calls)"
  from run_cycle_ok[OF this]
  show "consecutive_errors (run_cycle E W s) = 0"
    and "waits (run_cycle E W s) = waits s @ [POLL_INTERVAL_SECONDS E]"
    by simp_all
next
  fix e st calls
  assume "poll_once E W (poll s) = (Inl e, st, calls)"
  from run_cycle_raise[OF this]
  show "consecutive_errors (run_cycle E W s) = consecutive_errors s + 1"
    and "waits (run_cycle E W s) = waits s @ [backoff_sleep (consecutive_errors s + 1)]"
    by simp_all
next
  fix W1 W2 W3 :: world and e1 e2 e3 :: exn
  assume a: "fetch_device_data W1 = Inl e1 \<and> fetch_device_data W2 = Inl e2
        \<and> fetch_device_data W3 = Inl e3
        \<and> \<not> shutdown_is_set W1 \<and> \<not> shutdown_is_set W2 \<and> \<not> shutdown_is_set W3"
  let ?s3 = "\<lparr>poll = st0, consecutive_errors = 3, waits = [2, 4, 8], client_calls = []\<rparr>"
  from a have r3: "run E [W1, W2, W3] st0 = ?s3"
    by (simp add: run_def run_cycle_fetch_raises backoff_sleep_def)
  then show "waits (run E [W1, W2, W3] st0) = [2, 4, 8]"
    and "consecutive_errors (run E [W1, W2, W3] st0) = 3"
    and "poll (run E [W1, W2, W3] st0) = st0"
    by simp_all
  fix W4 :: world and l st calls
  assume b: "\<not> shutdown_is_set W4 \<and> poll_once E W4 st0 = (Inr l, st, calls)"
  from a have "run E [W1, W2, W3, W4] st0 = run_loop E [W4] ?s3"
    by (simp add: run_def run_cycle_fetch_raises backoff_sleep_def numeral_3_eq_3)
  also from b have "\<dots> = run_cycle E W4 ?s3" by simp
  finally have r4: "run E [W1, W2, W3, W4] st0 = run_cycle E W4 ?s3" .
  from b have "poll_once E W4 (poll ?s3) = (Inr l, st, calls)" by simp
  from run_cycle_ok[OF this] r4
  show "consecutive_errors (run E [W1, W2, W3, W4] st0) = 0"
    and "waits (run E [W1, W2, W3, W4] st0) = [2, 4, 8, POLL_INTERVAL_SECONDS E]"
    by simp_all
qed

theorem consecutive_errors_backoff_witness:
  "fetch_device_data (world_of (Inl RequestException) store_up) = Inl RequestException
   \<and> \<not> shutdown_is_set (world_of (Inl RequestException) store_up)
   \<and> \<not> shutdown_is_set (world_of (Inr scenario_A) store_up)
   \<and> poll_once scenario_env (world_of (Inr scenario_A) store_up) initial_state
       = (Inr (Written 1 (JStr T1) 1), polled 1 (JStr T1),
          [WriteApi, Write ''sck_data'' ''sck'' line_T1])
   \<and> waits (run scenario_env
        [world_of (Inl RequestException) store_up, world_of (Inl RequestException) store_up,
         world_of (Inl RequestException) store_up] initial_state) = [2, 4, 8]
   \<and> consecutive_errors (run scenario_env
        [world_of (Inl RequestException) store_up, world_of (Inl RequestException) store_up,
         world_of (Inl RequestException) store_up] initial_state) = 3
   \<and> consecutive_errors (run scenario_env
        [world_of (Inl RequestException) store_up, world_of (Inl RequestException) store_up,
         world_of (Inl RequestException) store_up, world_of (Inr scenario_A) store_up]
        initial_state) = 0"
proof -
  let ?F = "world_of (Inl RequestException) store_up"
  let ?A = "world_of (Inr scenario_A) store_up"
  have f: "fetch_device_data ?F = Inl RequestException" by (rule fetch_world_of)
  have nf: "\<not> shutdown_is_set ?F" and na: "\<not> shutdown_is_set ?A"
    by (simp_all add: world_of_def)
  have "\<not> py_eq (JStr T1) (last_reading_at initial_state)"
    by (simp add: initial_state_def py_eq.simps)
  from poll_scenario_A_up[OF this]
  have w: "poll_once scenario_env ?A initial_state
       = (Inr (Written 1 (JStr T1) 1), polled 1 (JStr T1),
          [WriteApi, Write ''sck_data'' ''sck'' line_T1])"
    by (simp add: initial_state_def polled_def)
  from consecutive_errors_backoff[where E = scenario_env and ?st0.0 = initial_state]
  have "waits (run scenario_env [?F, ?F, ?F] initial_state) = [2, 4, 8]
        \<and> consecutive_errors (run scenario_env [?F, ?F, ?F] initial_state) = 3
        \<and> consecutive_errors (run scenario_env [?F, ?F, ?F, ?A] initial_state) = 0"
    using f nf na w by blast
  with f nf na w show ?thesis by simp
qed

section \<open>Properties of the backoff wait\<close>

lemma backoff_sleep_mono: "m \<le> n \<Longrightarrow> backoff_sleep m \<le> backoff_sleep n"
proof -
  assume "m \<le> n"
  then have "(2::int) ^ m \<le> 2 ^ n"
    by (simp add: power_increasing)
  then show ?thesis
    unfolding backoff_sleep_def by (simp add: min_le_iff_disj)
qed

lemma backoff_sleep_small: "n \<le> 8 \<Longrightarrow> backoff_sleep n = 2 ^ n"
proof -
  assume "n \<le> 8"
  then have "(2::int) ^ n \<le> 2 ^ 8"
    by (intro power_increasing) simp_all
  then show ?thesis
    unfolding backoff_sleep_def by simp
qed

lemma backoff_sleep_large: "9 \<le> n \<Longrightarrow> backoff_sleep n = 300"
proof -
  assume "9 \<le> n"
  then have "(2::int) ^ 9 \<le> 2 ^ n"
    by (intro power_increasing) simp_all
  then show ?thesis
    unfolding backoff_sleep_def by simp
qed

text \<open>
  Claim C2. For every attempt number \<open>n\<close> from 1 to 10 the wait is \<open>min (2 ^ n) 300\<close>
  seconds, that is 2, 4, 8, 16, 32, 64, 128, 256, 300, 300; the wait never decreases
  when \<open>n\<close> grows, and it never exceeds 300.
\<close>

theorem backoff_wait_table:
  "(\<forall>n \<in> {1..10}. backoff_sleep n = min (2 ^ n) 300)
   \<and> map backoff_sleep [1, 2, 3, 4, 5, 6, 7, 8, 9, 10]
       = [2, 4, 8, 16, 32, 64, 128, 256, 300, 300]
   \<and> (\<forall>m n. m \<le> n \<longrightarrow> backoff_sleep m \<le> backoff_sleep n)
   \<and> (\<forall>n. backoff_sleep n \<le> 300)"
proof (intro conjI allI impI ballI)
  show "map backoff_sleep [1, 2, 3, 4, 5, 6, 7, 8, 9, 10]
       = [2, 4, 8, 16, 32, 64, 128, 256, 300, 300]"
    by (simp add: backoff_sleep_def)
next
  fix n :: nat
  show "backoff_sleep n = min (2 ^ n) 300"
    by (simp add: backoff_sleep_def)
  show "backoff_sleep n \<le> 300"
    by (simp add: backoff_sleep_def)
next
  fix m n :: nat
  assume "m \<le> n"
  then show "backoff_sleep m \<le> backoff_sleep n"
    by (rule backoff_sleep_mono)
qed

theorem backoff_wait_table_witness:
  "(7::nat) \<in> {1..10} \<and> backoff_sleep 7 = 128 \<and> (3::nat) \<le> 9
   \<and> backoff_sleep 3 \<le> backoff_sleep 9 \<and> backoff_sleep 9 = 300"
proof -
  have t: "(7::nat) \<in> {1..10}" by simp
  have "backoff_sleep 7 = min (2 ^ 7) 300"
    using backoff_wait_table t by blast
  moreover have "backoff_sleep 3 \<le> backoff_sleep 9"
    using backoff_wait_table by simp
  moreover have "backoff_sleep 9 = 300"
    by (simp add: backoff_sleep_def)
  ultimately show ?thesis by simp
qed

end
